theory Spec2Isabelle
  imports Complex_Main
begin

section \<open>Python values, exceptions and remote services\<close>

text \<open>
  The program is one Python module,
  \<^verbatim>\<open>src/function/push-gitlab-pending-jobs-metric.py\<close>: a scheduled function that
  reads a token from a parameter store, pages through the projects of a GitLab
  server, counts the pending and running jobs of the recently active projects, reads
  the instances of an autoscaling group and publishes three metrics.

  Exceptions are values: every function that can raise returns \<open>exc + 'a\<close>, with
  \<open>Inl\<close> the exception. \<open>ClientError\<close> carries the \<^verbatim>\<open>response\<close> dictionary of
  botocore's exception (a dictionary of dictionaries of strings), \<open>Timeout\<close> is
  \<^verbatim>\<open>requests.exceptions.Timeout\<close>, \<open>Exception\<close> is the generic exception the
  module raises itself with its message, and \<open>OtherError\<close> is any other exception a
  remote call may raise, with its class name. Logging has no effect on any result
  and is left out, and so is the counter \<^verbatim>\<open>total_numb_of_projects\<close>, which is only
  logged.
\<close>

datatype exc =
    ClientError "string \<rightharpoonup> (string \<rightharpoonup> string)"
  | Timeout
  | Exception string
  | IndexError
  | ValueError
  | ZeroDivisionError
  | OverflowError
  | OtherError string

text \<open>
  A Python number is an \<^verbatim>\<open>int\<close> or a \<^verbatim>\<open>float\<close>. A float is an IEEE 754 double:
  a finite value with its sign (\<open>True\<close> for negative, so that the two zeros differ) and
  the rational magnitude it stands for, an infinity with its sign, or not-a-number.
\<close>

datatype pyfloat = Finite bool rat | Infinity bool | NaN

datatype number = PyInt int | PyFloat pyfloat

text \<open>
  A remote service (the parameter store, the GitLab server, the autoscaling service,
  the metrics backend) answers a request with a result or an exception. Its answer
  may depend on everything it was sent before, so a service is a function of the
  list of the requests sent so far and of the new request; \<open>call\<close> sends one request
  and records it. The list of requests sent is the only state of the program that
  outlives a function call.
\<close>

type_synonym ('q, 'r) service = "'q list \<Rightarrow> 'q \<Rightarrow> exc + 'r"

definition call :: "('q, 'r) service \<Rightarrow> 'q \<Rightarrow> 'q list \<Rightarrow> (exc + 'r) \<times> 'q list" where
  "call svc q sent = (svc sent q, sent @ [q])"

definition dict_get :: "('k \<rightharpoonup> 'v) \<Rightarrow> 'k \<Rightarrow> 'v \<Rightarrow> 'v" where
  "dict_get d k dflt = (case d k of None \<Rightarrow> dflt | Some v \<Rightarrow> v)"

definition getitem :: "'a list \<Rightarrow> nat \<Rightarrow> exc + 'a" where
  "getitem xs i = (if i < length xs then Inr (xs ! i) else Inl IndexError)"

text \<open>
  \<^verbatim>\<open>s.split(sep)\<close> for a separator of one character: the pieces between the
  occurrences of the separator, always at least one piece.
\<close>

fun py_split :: "char \<Rightarrow> string \<Rightarrow> string list" where
  "py_split sep [] = [] # []"
| "py_split sep (c # cs) =
     (if c = sep then [] # py_split sep cs
      else (case py_split sep cs of
              [] \<Rightarrow> [c] # []
            | w # ws \<Rightarrow> (c # w) # ws))"

text \<open>\<^verbatim>\<open>str(i)\<close> of an integer, as \<^verbatim>\<open>'{pid}'.format(pid=project_id)\<close> renders it.\<close>

fun digits :: "nat \<Rightarrow> string" where
  "digits n =
     (if n < 10 then [''0123456789'' ! n]
      else digits (n div 10) @ [''0123456789'' ! (n mod 10)])"

definition str :: "int \<Rightarrow> string" where
  "str i = (if i < 0 then CHR ''-'' # digits (nat (- i)) else digits (nat i))"


section \<open>Configuration\<close>

text \<open>
  The module reads its configuration from the environment when it is loaded; the
  model takes the values as read. \<open>RUNNERS_PER_INSTANCE\<close> is \<^verbatim>\<open>int(os.getenv(...))\<close>,
  any integer.
\<close>

record config =
  TOKEN_SSM_PATH :: string
  GITLAB_URI :: string
  ASG_NAME :: string
  RUNNERS_PER_INSTANCE :: int
  NARROW_TO_MEMBERSHIP :: bool

definition MAX_RETRIES :: nat where
  "MAX_RETRIES = 8"


section \<open>The retry wrapper\<close>

text \<open>
  Modelled from the spec: the decorator \<^verbatim>\<open>backoff.on_exception\<close> belongs to the
  third-party library \<^verbatim>\<open>backoff\<close>, which is not among the sources. The spec (4.1 and
  7) describes it: the call is retried up to a fixed maximum number of attempts with
  a growing delay in between; an exception that is not of the class the decorator
  names is not retried; an exception for which the \<^verbatim>\<open>giveup\<close> predicate holds
  propagates at once; when the attempts are exhausted the exception of the last
  attempt propagates. The delays are not modelled. \<open>tries\<close> counts the attempts made
  so far and starts at 0.
\<close>

function on_exception ::
  "(exc \<Rightarrow> bool) \<Rightarrow> nat \<Rightarrow> (exc \<Rightarrow> bool) \<Rightarrow> ('s \<Rightarrow> (exc + 'r) \<times> 's) \<Rightarrow> nat \<Rightarrow> 's \<Rightarrow> (exc + 'r) \<times> 's"
where
  "on_exception exception max_tries giveup target tries s =
     (case target s of
        (Inr ret, s') \<Rightarrow> (Inr ret, s')
      | (Inl e, s') \<Rightarrow>
          if \<not> exception e then (Inl e, s')
          else if giveup e \<or> max_tries \<le> tries + 1 then (Inl e, s')
          else on_exception exception max_tries giveup target (tries + 1) s')"
  by pat_completeness auto
termination
  by (relation "measure (\<lambda>(exception, max_tries, giveup, target, tries, s). max_tries - tries)") auto

fun is_ClientError :: "exc \<Rightarrow> bool" where
  "is_ClientError (ClientError response) = True"
| "is_ClientError e = False"

fun is_Timeout :: "exc \<Rightarrow> bool" where
  "is_Timeout Timeout = True"
| "is_Timeout e = False"

text \<open>
  \<^verbatim>\<open>e.response.get('Error', {}).get('Code', 'Unknown') != 'RequestLimitExceeded'\<close>.
  The decorator applies the predicate to the exceptions it catches, which are client
  errors; the second equation is never reached.
\<close>

fun no_request_limit_exceeded_code :: "exc \<Rightarrow> bool" where
  "no_request_limit_exceeded_code (ClientError response) =
     (dict_get (dict_get response ''Error'' Map.empty) ''Code'' ''Unknown'' \<noteq> ''RequestLimitExceeded'')"
| "no_request_limit_exceeded_code e = True"

definition get_parameter :: "('q, 'r) service \<Rightarrow> 'q \<Rightarrow> 'q list \<Rightarrow> (exc + 'r) \<times> 'q list" where
  "get_parameter ssm_client kwargs sent =
     on_exception is_ClientError MAX_RETRIES no_request_limit_exceeded_code
       (call ssm_client kwargs) 0 sent"

definition put_metric_data :: "('q, 'r) service \<Rightarrow> 'q \<Rightarrow> 'q list \<Rightarrow> (exc + 'r) \<times> 'q list" where
  "put_metric_data cw_client kwargs sent =
     on_exception is_ClientError MAX_RETRIES no_request_limit_exceeded_code
       (call cw_client kwargs) 0 sent"

definition describe_auto_scaling_groups ::
  "('q, 'r) service \<Rightarrow> 'q \<Rightarrow> 'q list \<Rightarrow> (exc + 'r) \<times> 'q list" where
  "describe_auto_scaling_groups asg_client kwargs sent =
     on_exception is_ClientError MAX_RETRIES no_request_limit_exceeded_code
       (call asg_client kwargs) 0 sent"

text \<open>
  \<^verbatim>\<open>get_request\<close> retries on a timeout only, and never gives up early (the
  decorator's default \<^verbatim>\<open>giveup\<close> is constantly false).
\<close>

definition get_request :: "('q, 'r) service \<Rightarrow> 'q \<Rightarrow> 'q list \<Rightarrow> (exc + 'r) \<times> 'q list" where
  "get_request requests_get args sent =
     on_exception is_Timeout MAX_RETRIES (\<lambda>e. False) (call requests_get args) 0 sent"


section \<open>The GitLab API\<close>

text \<open>
  A request is the URL and the value of the \<^verbatim>\<open>PRIVATE-TOKEN\<close> header. A response
  has a status code, headers and a JSON body. \<open>headers res name\<close> is the lookup of
  \<^verbatim>\<open>res.headers\<close>, \<open>None\<close> when \<^verbatim>\<open>name not in res.headers\<close>. The body is typed as the
  API documents it, a list of objects; of an object the model keeps the two keys the
  module reads: \<^verbatim>\<open>'id'\<close> (of a project and of a job) and \<^verbatim>\<open>'last_activity_at'\<close>
  (of a project; the module never reads it from a job).
\<close>

type_synonym request = "string \<times> string"

record json_object =
  obj_id :: int
  last_activity_at :: string

record response =
  status_code :: int
  headers :: "string \<rightharpoonup> string"
  json :: "json_object list"

text \<open>
  A naive \<^verbatim>\<open>datetime\<close> is its number of microseconds on the proleptic Gregorian
  time line; the order of \<^verbatim>\<open>datetime\<close> is the order of these numbers.
  \<^verbatim>\<open>datetime.strptime\<close> with the format \<^verbatim>\<open>'%Y-%m-%dT%H:%M:%S.%fZ'\<close> is a parameter
  \<open>strptime\<close> of the model, \<open>None\<close> where Python raises \<^verbatim>\<open>ValueError\<close>.
\<close>

type_synonym datetime = int

definition timedelta_hours :: "int \<Rightarrow> int" where
  "timedelta_hours h = h * 3600 * 1000000"

definition first_link :: "config \<Rightarrow> string" where
  "first_link cfg =
     GITLAB_URI cfg
     @ ''/api/v4/projects?pagination=keyset&per_page=50&order_by=id&sort=asc&simple=true''
     @ (if NARROW_TO_MEMBERSHIP cfg then ''&membership=true'' else '''')"

text \<open>The \<^verbatim>\<open>for project in res.json()\<close> loop of \<^verbatim>\<open>get_all_project_ids\<close>.\<close>

fun scan_projects ::
  "(string \<Rightarrow> datetime option) \<Rightarrow> datetime \<Rightarrow> json_object list \<Rightarrow> int list \<Rightarrow> exc + int list"
where
  "scan_projects strptime four_hours_ago [] project_ids = Inr project_ids"
| "scan_projects strptime four_hours_ago (project # rest) project_ids =
     (case strptime (last_activity_at project) of
        None \<Rightarrow> Inl ValueError
      | Some last_activity \<Rightarrow>
          scan_projects strptime four_hours_ago rest
            (if last_activity > four_hours_ago then project_ids @ [obj_id project]
             else project_ids))"

text \<open>\<^verbatim>\<open>res.headers['Links'].split('<')[1].split('>')[0]\<close>\<close>

definition next_link :: "string \<Rightarrow> exc + string" where
  "next_link links =
     (case getitem (py_split CHR ''<'' links) 1 of
        Inl e \<Rightarrow> Inl e
      | Inr s \<Rightarrow> getitem (py_split CHR ''>'' s) 0)"

text \<open>
  The \<^verbatim>\<open>while True\<close> loop of \<^verbatim>\<open>get_all_project_ids\<close>. Nothing bounds the number of
  pages, so the loop is a partial function: \<open>None\<close> is a run that never leaves the
  loop.
\<close>

partial_function (option) project_pages ::
  "(request, response) service \<Rightarrow> (string \<Rightarrow> datetime option) \<Rightarrow> datetime \<Rightarrow> string \<Rightarrow> string
     \<Rightarrow> int list \<Rightarrow> request list \<Rightarrow> ((exc + int list) \<times> request list) option"
where
  "project_pages requests_get strptime four_hours_ago token link project_ids sent =
     (case get_request requests_get (link, token) sent of
        (Inl e, sent') \<Rightarrow> Some (Inl e, sent')
      | (Inr res, sent') \<Rightarrow>
          if status_code res \<noteq> 200
          then Some (Inl (Exception ''Error retrieving all the projects''), sent')
          else (case scan_projects strptime four_hours_ago (json res) project_ids of
                  Inl e \<Rightarrow> Some (Inl e, sent')
                | Inr project_ids' \<Rightarrow>
                    (case headers res ''Links'' of
                       None \<Rightarrow> Some (Inr project_ids', sent')
                     | Some links \<Rightarrow>
                         (case next_link links of
                            Inl e \<Rightarrow> Some (Inl e, sent')
                          | Inr link' \<Rightarrow>
                              project_pages requests_get strptime four_hours_ago token
                                link' project_ids' sent'))))"

definition get_all_project_ids ::
  "config \<Rightarrow> (request, response) service \<Rightarrow> (string \<Rightarrow> datetime option) \<Rightarrow> datetime \<Rightarrow> string
     \<Rightarrow> request list \<Rightarrow> ((exc + int list) \<times> request list) option"
where
  "get_all_project_ids cfg requests_get strptime now token sent =
     project_pages requests_get strptime (now - timedelta_hours 4) token (first_link cfg) [] sent"

definition get_pending_jobs ::
  "config \<Rightarrow> (request, response) service \<Rightarrow> int \<Rightarrow> string \<Rightarrow> request list
     \<Rightarrow> (exc + json_object list) \<times> request list"
where
  "get_pending_jobs cfg requests_get project_id token sent =
     (case get_request requests_get
             (GITLAB_URI cfg @ ''/api/v4/projects/'' @ str project_id @ ''/jobs?scope[]=pending'',
              token) sent of
        (Inl e, sent') \<Rightarrow> (Inl e, sent')
      | (Inr res, sent') \<Rightarrow>
          if status_code res \<noteq> 200 then (Inr [], sent') else (Inr (json res), sent'))"

definition get_running_jobs ::
  "config \<Rightarrow> (request, response) service \<Rightarrow> int \<Rightarrow> string \<Rightarrow> request list
     \<Rightarrow> (exc + json_object list) \<times> request list"
where
  "get_running_jobs cfg requests_get project_id token sent =
     (case get_request requests_get
             (GITLAB_URI cfg @ ''/api/v4/projects/'' @ str project_id @ ''/jobs?scope[]=running'',
              token) sent of
        (Inl e, sent') \<Rightarrow> (Inl e, sent')
      | (Inr res, sent') \<Rightarrow>
          if status_code res \<noteq> 200 then (Inr [], sent') else (Inr (json res), sent'))"

text \<open>The \<^verbatim>\<open>for project_id in project_ids\<close> loop of \<^verbatim>\<open>get_all_pending_and_running_job_ids\<close>.\<close>

fun job_ids_loop ::
  "config \<Rightarrow> (request, response) service \<Rightarrow> string \<Rightarrow> int list \<Rightarrow> int list \<times> int list
     \<Rightarrow> request list \<Rightarrow> (exc + int list \<times> int list) \<times> request list"
where
  "job_ids_loop cfg requests_get token [] (pending_job_ids, running_job_ids) sent =
     (Inr (pending_job_ids, running_job_ids), sent)"
| "job_ids_loop cfg requests_get token (project_id # rest) (pending_job_ids, running_job_ids) sent =
     (case get_pending_jobs cfg requests_get project_id token sent of
        (Inl e, sent1) \<Rightarrow> (Inl e, sent1)
      | (Inr pending_jobs, sent1) \<Rightarrow>
          (case get_running_jobs cfg requests_get project_id token sent1 of
             (Inl e, sent2) \<Rightarrow> (Inl e, sent2)
           | (Inr running_jobs, sent2) \<Rightarrow>
               job_ids_loop cfg requests_get token rest
                 (if length pending_jobs \<noteq> 0
                  then pending_job_ids @ map obj_id pending_jobs else pending_job_ids,
                  if length running_jobs \<noteq> 0
                  then running_job_ids @ map obj_id running_jobs else running_job_ids)
                 sent2))"

definition get_all_pending_and_running_job_ids ::
  "config \<Rightarrow> (request, response) service \<Rightarrow> (string \<Rightarrow> datetime option) \<Rightarrow> datetime \<Rightarrow> string
     \<Rightarrow> request list \<Rightarrow> ((exc + int list \<times> int list) \<times> request list) option"
where
  "get_all_pending_and_running_job_ids cfg requests_get strptime now token sent =
     (case get_all_project_ids cfg requests_get strptime now token sent of
        None \<Rightarrow> None
      | Some (Inl e, sent') \<Rightarrow> Some (Inl e, sent')
      | Some (Inr project_ids, sent') \<Rightarrow>
          Some (job_ids_loop cfg requests_get token project_ids ([], []) sent'))"

definition get_number_of_pending_and_running_jobs ::
  "config \<Rightarrow> (request, response) service \<Rightarrow> (string \<Rightarrow> datetime option) \<Rightarrow> datetime \<Rightarrow> string
     \<Rightarrow> request list \<Rightarrow> ((exc + nat \<times> nat) \<times> request list) option"
where
  "get_number_of_pending_and_running_jobs cfg requests_get strptime now token sent =
     (case get_all_pending_and_running_job_ids cfg requests_get strptime now token sent of
        None \<Rightarrow> None
      | Some (Inl e, sent') \<Rightarrow> Some (Inl e, sent')
      | Some (Inr (pending_job_ids, running_job_ids), sent') \<Rightarrow>
          Some (Inr (length pending_job_ids, length running_job_ids), sent'))"


section \<open>The autoscaling group\<close>

text \<open>
  The result of \<^verbatim>\<open>describe_auto_scaling_groups\<close>, typed as the service documents it.
  \<open>Instances\<close> is optional: the module reads it with \<^verbatim>\<open>.get('Instances', [])\<close>.
  \<^verbatim>\<open>result['AutoScalingGroups'][0]\<close> raises \<^verbatim>\<open>IndexError\<close> when no group has the
  name.
\<close>

record asg_instance =
  InstanceId :: string
  HealthStatus :: string
  LifecycleState :: string

record auto_scaling_group =
  Instances :: "asg_instance list option"

record describe_result =
  AutoScalingGroups :: "auto_scaling_group list"

text \<open>The \<^verbatim>\<open>for instance in instances\<close> loop, with its counter.\<close>

fun count_in_service :: "asg_instance list \<Rightarrow> nat \<Rightarrow> nat" where
  "count_in_service [] instances_in_service = instances_in_service"
| "count_in_service (inst # rest) instances_in_service =
     count_in_service rest
       (if HealthStatus inst = ''Healthy'' \<and> LifecycleState inst = ''InService''
        then instances_in_service + 1 else instances_in_service)"

definition get_asg_healthy_instances_in_service ::
  "config \<Rightarrow> (string list, describe_result) service \<Rightarrow> string list list
     \<Rightarrow> (exc + nat) \<times> string list list"
where
  "get_asg_healthy_instances_in_service cfg asg_client sent =
     (case describe_auto_scaling_groups asg_client [ASG_NAME cfg] sent of
        (Inl e, sent') \<Rightarrow> (Inl e, sent')
      | (Inr result, sent') \<Rightarrow>
          (case getitem (AutoScalingGroups result) 0 of
             Inl e \<Rightarrow> (Inl e, sent')
           | Inr asg \<Rightarrow>
               (Inr (count_in_service (case Instances asg of None \<Rightarrow> [] | Some l \<Rightarrow> l) 0),
                sent')))"


section \<open>The handler\<close>

text \<open>
  Rounding to a double. \<open>bit_length\<close> is \<^verbatim>\<open>int.bit_length\<close>; \<open>exponent x\<close> is the
  \<open>e\<close> with \<open>2 ^ e \<le> x < 2 ^ (e + 1)\<close> of a positive rational. A double has 53
  significant bits, so the doubles around \<open>x\<close> are the multiples of
  \<open>2 ^ (e - 52)\<close>, and of \<open>2 ^ (- 1074)\<close> in the subnormal range where \<open>e < - 1022\<close>.
  \<open>round_double\<close> takes a magnitude to the nearest of them, a tie to the one with the
  even significand, and has no result when that is \<open>2 ^ 1024\<close> or more, which is
  beyond the largest double.
\<close>

fun bit_length :: "nat \<Rightarrow> nat" where
  "bit_length n = (if n = 0 then 0 else Suc (bit_length (n div 2)))"

definition exponent :: "rat \<Rightarrow> int" where
  "exponent x =
     (let (p, q) = quotient_of x;
          d = int (bit_length (nat p)) - int (bit_length (nat q))
      in if 2 powi d \<le> x then d else d - 1)"

definition round_half_even :: "rat \<Rightarrow> int" where
  "round_half_even y =
     (let n = \<lfloor>y\<rfloor>; r = y - of_int n
      in if r < 1 / 2 then n
         else if 1 / 2 < r then n + 1
         else if even n then n else n + 1)"

definition round_double :: "rat \<Rightarrow> rat option" where
  "round_double x =
     (if x = 0 then Some 0
      else let e = max (exponent x) (- 1022);
               quantum = 2 powi (e - 52);
               m = of_int (round_half_even (x / quantum)) * quantum
           in if m < 2 powi 1024 then Some m else None)"

text \<open>
  \<^verbatim>\<open>float(i)\<close> of an integer is the nearest double, and raises \<^verbatim>\<open>OverflowError\<close> when
  the integer is too large for a double.
\<close>

definition py_float :: "int \<Rightarrow> exc + pyfloat" where
  "py_float i =
     (case round_double (of_int \<bar>i\<bar>) of
        None \<Rightarrow> Inl OverflowError
      | Some m \<Rightarrow> Inr (Finite (i < 0) m))"

text \<open>
  \<^verbatim>\<open>a / b\<close> of two floats raises \<^verbatim>\<open>ZeroDivisionError\<close> when \<^verbatim>\<open>b == 0.0\<close>, and is the
  IEEE quotient otherwise: the nearest double, an infinity when the quotient is
  beyond the largest double, with the sign of the quotient.
\<close>

fun float_div :: "pyfloat \<Rightarrow> pyfloat \<Rightarrow> exc + pyfloat" where
  "float_div a (Finite t k) =
     (if k = 0 then Inl ZeroDivisionError
      else (case a of
              Finite s m \<Rightarrow>
                (case round_double (m / k) of
                   None \<Rightarrow> Inr (Infinity (s \<noteq> t))
                 | Some r \<Rightarrow> Inr (Finite (s \<noteq> t) r))
            | Infinity s \<Rightarrow> Inr (Infinity (s \<noteq> t))
            | NaN \<Rightarrow> Inr NaN))"
| "float_div a (Infinity t) =
     (case a of
        Finite s m \<Rightarrow> Inr (Finite (s \<noteq> t) 0)
      | Infinity s \<Rightarrow> Inr NaN
      | NaN \<Rightarrow> Inr NaN)"
| "float_div a NaN = Inr NaN"

text \<open>
  Lines 160 to 162 of the handler: the load is the integer 100 when no instance is
  healthy and in service, and otherwise the float quotient
  \<^verbatim>\<open>float(100 * running_jobs) / float(healthy_instances_in_service * RUNNERS_PER_INSTANCE)\<close>,
  its left operand converted first.
\<close>

definition runners_overall_load :: "config \<Rightarrow> nat \<Rightarrow> nat \<Rightarrow> exc + number" where
  "runners_overall_load cfg running_jobs healthy_instances_in_service =
     (if healthy_instances_in_service \<noteq> 0
      then (case py_float (100 * int running_jobs) of
              Inl e \<Rightarrow> Inl e
            | Inr a \<Rightarrow>
                (case py_float (int healthy_instances_in_service * RUNNERS_PER_INSTANCE cfg) of
                   Inl e \<Rightarrow> Inl e
                 | Inr b \<Rightarrow>
                     (case float_div a b of
                        Inl e \<Rightarrow> Inl e
                      | Inr x \<Rightarrow> Inr (PyFloat x))))
      else Inr (PyInt 100))"

record ssm_request =
  Name :: string
  WithDecryption :: bool

record ssm_result =
  Parameter_Value :: string

record metric_datum =
  MetricName :: string
  Dimensions :: "(string \<times> string) list"
  Timestamp :: rat
  MetricValue :: number
  MetricUnit :: string
  StorageResolution :: nat

record cw_request =
  Namespace :: string
  MetricData :: "metric_datum list"

text \<open>
  The environment of one invocation: the four remote services, the clock read by
  \<^verbatim>\<open>datetime.utcnow()\<close> and by \<^verbatim>\<open>time.time()\<close>, and the timestamp parser. The state
  of an invocation is what it has sent to each service.
\<close>

record env =
  the_ssm_client :: "(ssm_request, ssm_result) service"
  the_requests_get :: "(request, response) service"
  the_asg_client :: "(string list, describe_result) service"
  the_cw_client :: "(cw_request, unit) service"
  the_utcnow :: datetime
  the_time :: rat
  the_strptime :: "string \<Rightarrow> datetime option"

record world =
  ssm_sent :: "ssm_request list"
  http_sent :: "request list"
  asg_sent :: "string list list"
  cw_sent :: "cw_request list"

definition metric_data :: "rat \<Rightarrow> nat \<Rightarrow> nat \<Rightarrow> number \<Rightarrow> metric_datum list" where
  "metric_data timestamp pending_jobs running_jobs runners_overall_load_value =
     [\<lparr>MetricName = ''NumberOfPendingJobs'', Dimensions = [(''Job Status'', ''Pending'')],
       Timestamp = timestamp, MetricValue = PyInt (int pending_jobs), MetricUnit = ''Count'',
       StorageResolution = 60\<rparr>,
      \<lparr>MetricName = ''NumberOfRunningJobs'', Dimensions = [(''Job Status'', ''Running'')],
       Timestamp = timestamp, MetricValue = PyInt (int running_jobs), MetricUnit = ''Count'',
       StorageResolution = 60\<rparr>,
      \<lparr>MetricName = ''RunnersOverallLoad'',
       Dimensions = [(''Runners Overall Load'', ''OverallLoadPercentage'')],
       Timestamp = timestamp, MetricValue = runners_overall_load_value, MetricUnit = ''Percent'',
       StorageResolution = 60\<rparr>]"

definition handler :: "config \<Rightarrow> env \<Rightarrow> world \<Rightarrow> ((exc + unit) \<times> world) option" where
  "handler cfg ev w =
     (case get_parameter (the_ssm_client ev)
             \<lparr>Name = TOKEN_SSM_PATH cfg, WithDecryption = True\<rparr> (ssm_sent w) of
        (Inl e, ssm') \<Rightarrow> Some (Inl e, w\<lparr>ssm_sent := ssm'\<rparr>)
      | (Inr result, ssm') \<Rightarrow>
          (case get_number_of_pending_and_running_jobs cfg (the_requests_get ev) (the_strptime ev)
                  (the_utcnow ev) (Parameter_Value result) (http_sent w) of
             None \<Rightarrow> None
           | Some (Inl e, http') \<Rightarrow> Some (Inl e, w\<lparr>ssm_sent := ssm', http_sent := http'\<rparr>)
           | Some (Inr (pending_jobs, running_jobs), http') \<Rightarrow>
               (case get_asg_healthy_instances_in_service cfg (the_asg_client ev) (asg_sent w) of
                  (Inl e, asg') \<Rightarrow>
                    Some (Inl e, w\<lparr>ssm_sent := ssm', http_sent := http', asg_sent := asg'\<rparr>)
                | (Inr healthy_instances_in_service, asg') \<Rightarrow>
                    (case runners_overall_load cfg running_jobs healthy_instances_in_service of
                       Inl e \<Rightarrow>
                         Some (Inl e, w\<lparr>ssm_sent := ssm', http_sent := http', asg_sent := asg'\<rparr>)
                     | Inr load \<Rightarrow>
                         (case put_metric_data (the_cw_client ev)
                                 \<lparr>Namespace = ''GitLab'',
                                  MetricData = metric_data (the_time ev) pending_jobs
                                                 running_jobs load\<rparr>
                                 (cw_sent w) of
                            (Inl e, cw') \<Rightarrow>
                              Some (Inl e, w\<lparr>ssm_sent := ssm', http_sent := http',
                                              asg_sent := asg', cw_sent := cw'\<rparr>)
                          | (Inr ok, cw') \<Rightarrow>
                              Some (Inr (), w\<lparr>ssm_sent := ssm', http_sent := http',
                                               asg_sent := asg', cw_sent := cw'\<rparr>))))))"

section \<open>Vocabulary of the properties\<close>

text \<open>
  \<open>answers svc sent trace\<close>: sent the requests of \<open>trace\<close> one after the other, starting
  from the history \<open>sent\<close>, the service answers each with the result paired with it.
\<close>

fun answers :: "('q, 'r) service \<Rightarrow> 'q list \<Rightarrow> ('q \<times> 'r) list \<Rightarrow> bool" where
  "answers svc sent [] = True"
| "answers svc sent ((q, r) # rest) = (svc sent q = Inr r \<and> answers svc (sent @ [q]) rest)"

text \<open>A client error whose error code is the rate-limit code.\<close>

fun rate_limit_error :: "exc \<Rightarrow> bool" where
  "rate_limit_error (ClientError response) =
     (case response ''Error'' of
        None \<Rightarrow> False
      | Some err \<Rightarrow> err ''Code'' = Some ''RequestLimitExceeded'')"
| "rate_limit_error e = False"

text \<open>
  The error code of the response of a client error, \<open>None\<close> when the response has no
  \<^verbatim>\<open>Error\<close> field or that field has no \<^verbatim>\<open>Code\<close>.
\<close>

definition error_code :: "(string \<rightharpoonup> (string \<rightharpoonup> string)) \<Rightarrow> string option" where
  "error_code response = (case response ''Error'' of None \<Rightarrow> None | Some err \<Rightarrow> err ''Code'')"

text \<open>
  A project is recent when its last activity parses and is strictly after the
  invocation time minus four hours (14400000000 microseconds).
\<close>

definition recent :: "(string \<Rightarrow> datetime option) \<Rightarrow> datetime \<Rightarrow> json_object \<Rightarrow> bool" where
  "recent strptime now project =
     (case strptime (last_activity_at project) of
        None \<Rightarrow> False
      | Some last_activity \<Rightarrow> now - 14400000000 < last_activity)"

text \<open>
  A run of project pages, each with the link it was requested at: every page but the
  last has status 200 and a \<^verbatim>\<open>Links\<close> header whose cursor is the link of the page after
  it.
\<close>

fun pages_chain :: "(string \<times> response) list \<Rightarrow> bool" where
  "pages_chain [] = True"
| "pages_chain [(link, res)] = True"
| "pages_chain ((link, res) # (link', res') # rest) =
     (status_code res = 200
      \<and> (case headers res ''Links'' of None \<Rightarrow> False | Some links \<Rightarrow> next_link links = Inr link')
      \<and> pages_chain ((link', res') # rest))"

definition page_requests :: "string \<Rightarrow> (string \<times> response) list \<Rightarrow> (request \<times> response) list" where
  "page_requests token pages = map (\<lambda>(link, res). ((link, token), res)) pages"

definition projects_of :: "(string \<times> response) list \<Rightarrow> json_object list" where
  "projects_of pages = concat (map (\<lambda>(link, res). json res) pages)"

text \<open>
  The two job-listing requests of each project, in the order the aggregation sends
  them, with the responses they get; and the job ids a job-listing response
  contributes.
\<close>

definition jobs_url :: "config \<Rightarrow> int \<Rightarrow> string \<Rightarrow> string" where
  "jobs_url cfg project_id scope =
     GITLAB_URI cfg @ ''/api/v4/projects/'' @ str project_id @ ''/jobs?scope[]='' @ scope"

fun job_requests ::
  "config \<Rightarrow> string \<Rightarrow> (int \<times> response \<times> response) list \<Rightarrow> (request \<times> response) list"
where
  "job_requests cfg token [] = []"
| "job_requests cfg token ((project_id, pending, running) # rest) =
     ((jobs_url cfg project_id ''pending'', token), pending)
     # ((jobs_url cfg project_id ''running'', token), running)
     # job_requests cfg token rest"

definition listed_job_ids :: "response \<Rightarrow> int list" where
  "listed_job_ids res = (if status_code res \<noteq> 200 then [] else map obj_id (json res))"

section \<open>Example environments\<close>

text \<open>
  Concrete configurations, services and pages, on which the theorems below are
  instantiated. \<open>throttled n v\<close> raises the rate-limit error until it has been sent
  \<open>n\<close> requests and answers \<open>v\<close> from then on; \<open>failing e\<close> always raises \<open>e\<close>;
  \<open>table_server\<close> answers a URL with the response a table gives it, and with status
  404 otherwise. \<open>example_strptime\<close> reads three timestamps of one day, in microseconds
  after its midnight, and \<open>example_now\<close> is noon of that day, so that the cutoff is
  08:00:00 exactly.
\<close>

definition example_config :: config where
  "example_config =
     \<lparr>TOKEN_SSM_PATH = ''/gitlab/token'', GITLAB_URI = ''https://g'', ASG_NAME = ''runners'',
      RUNNERS_PER_INSTANCE = 4, NARROW_TO_MEMBERSHIP = False\<rparr>"

definition error_response :: "string \<Rightarrow> (string \<rightharpoonup> (string \<rightharpoonup> string))" where
  "error_response code = [''Error'' \<mapsto> [''Code'' \<mapsto> code]]"

definition throttled :: "nat \<Rightarrow> 'r \<Rightarrow> ('q, 'r) service" where
  "throttled n v sent q =
     (if length sent < n then Inl (ClientError (error_response ''RequestLimitExceeded''))
      else Inr v)"

definition failing :: "exc \<Rightarrow> ('q, 'r) service" where
  "failing e sent q = Inl e"

definition example_instances :: "asg_instance list" where
  "example_instances =
     [\<lparr>InstanceId = ''i-1'', HealthStatus = ''Healthy'', LifecycleState = ''Pending''\<rparr>,
      \<lparr>InstanceId = ''i-2'', HealthStatus = ''Healthy'', LifecycleState = ''InService''\<rparr>,
      \<lparr>InstanceId = ''i-3'', HealthStatus = ''Unhealthy'', LifecycleState = ''InService''\<rparr>]"

definition ok :: "json_object list \<Rightarrow> response" where
  "ok body = \<lparr>status_code = 200, headers = Map.empty, json = body\<rparr>"

definition failed :: "int \<Rightarrow> json_object list \<Rightarrow> response" where
  "failed status body = \<lparr>status_code = status, headers = Map.empty, json = body\<rparr>"

definition jobs :: "nat \<Rightarrow> json_object list" where
  "jobs n = map (\<lambda>i. \<lparr>obj_id = int i, last_activity_at = ''''\<rparr>) [0..<n]"

definition table_server :: "(string \<times> response) list \<Rightarrow> (request, response) service" where
  "table_server table sent q =
     (case map_of table (fst q) of
        None \<Rightarrow> Inr (failed 404 [])
      | Some res \<Rightarrow> Inr res)"

definition example_strptime :: "string \<Rightarrow> datetime option" where
  "example_strptime s =
     (if s = ''2024-05-01T02:00:00.000000Z'' then Some 7200000000
      else if s = ''2024-05-01T08:00:00.000000Z'' then Some 28800000000
      else if s = ''2024-05-01T10:00:00.000000Z'' then Some 36000000000
      else None)"

definition example_now :: datetime where
  "example_now = 43200000000"

definition project :: "int \<Rightarrow> string \<Rightarrow> json_object" where
  "project i hour = \<lparr>obj_id = i, last_activity_at = ''2024-05-01T'' @ hour @ '':00:00.000000Z''\<rparr>"


definition failing_pages :: "(string \<times> response) list" where
  \<open>failing_pages =
     [(first_link example_config,
       \<lparr>status_code = 200, headers = [''Links'' \<mapsto> ''<https://g/page2>; rel="next"''],
        json = [project 1 ''10'']\<rparr>),
      (''https://g/page2'', failed 500 [])]\<close>

definition x_pages :: "(string \<times> response) list" where
  \<open>x_pages =
     [(first_link example_config,
       \<lparr>status_code = 200, headers = [''Links'' \<mapsto> ''<https://x/page2>; rel="next"''],
        json = [project 1 ''10'']\<rparr>),
      (''https://x/page2'', ok [])]\<close>

definition empty_cursor_pages :: "(string \<times> response) list" where
  "empty_cursor_pages =
     [(first_link example_config,
       \<lparr>status_code = 200, headers = [''Links'' \<mapsto> ''''], json = []\<rparr>)]"

definition empty_list_pages :: "(string \<times> response) list" where
  "empty_list_pages =
     [(first_link example_config,
       \<lparr>status_code = 200, headers = [''Links'' \<mapsto> ''<https://g/page2>''], json = []\<rparr>),
      (''https://g/page2'', failed 500 [])]"

definition three_projects :: "(string \<times> response) list" where
  "three_projects =
     [(first_link example_config, ok [project 1 ''10'', project 2 ''10'', project 3 ''10''])]"

definition example_fetched :: "(int \<times> response \<times> response) list" where
  "example_fetched =
     [(1, ok (jobs 3), ok (jobs 1)), (2, ok (jobs 0), ok (jobs 2)), (3, ok (jobs 5), ok (jobs 0))]"

definition partly_failed_fetched :: "(int \<times> response \<times> response) list" where
  "partly_failed_fetched =
     [(1, ok (jobs 3), failed 500 (jobs 1)), (2, failed 500 (jobs 4), ok (jobs 2)),
      (3, ok (jobs 5), ok (jobs 0))]"

definition jobs_table :: "(int \<times> response \<times> response) list \<Rightarrow> (string \<times> response) list" where
  "jobs_table fetched =
     concat (map (\<lambda>(project_id, pending, running).
                    [(jobs_url example_config project_id ''pending'', pending),
                     (jobs_url example_config project_id ''running'', running)]) fetched)"

definition example_env :: env where
  "example_env =
     \<lparr>the_ssm_client = throttled 0 \<lparr>Parameter_Value = ''secret''\<rparr>,
      the_requests_get = table_server failing_pages,
      the_asg_client = throttled 0 \<lparr>AutoScalingGroups = []\<rparr>,
      the_cw_client = throttled 0 (),
      the_utcnow = example_now,
      the_time = 0,
      the_strptime = example_strptime\<rparr>"

definition new_world :: world where
  "new_world = \<lparr>ssm_sent = [], http_sent = [], asg_sent = [], cw_sent = []\<rparr>"

section \<open>Auxiliary facts\<close>

text \<open>
  The recursive equations of \<open>on_exception\<close>, \<open>digits\<close> and \<open>bit_length\<close> are unfolded
  by hand.
\<close>

declare on_exception.simps [simp del]

declare digits.simps [simp del]

declare bit_length.simps [simp del]

lemmas example_defs =
  example_config_def first_link_def ok_def failed_def jobs_def table_server_def
  example_strptime_def example_now_def project_def page_requests_def projects_of_def
  next_link_def getitem_def recent_def

lemmas jobs_defs = jobs_table_def jobs_url_def str_def digits.simps three_projects_def

subsection \<open>The retry wrapper\<close>

lemma on_exception_returns:
  "target s = (Inr ret, s') \<Longrightarrow> on_exception ex m g target tries s = (Inr ret, s')"
  by (subst on_exception.simps) simp

lemma on_exception_gives_up:
  "target s = (Inl e, s') \<Longrightarrow> \<not> ex e \<or> g e \<or> m \<le> tries + 1
     \<Longrightarrow> on_exception ex m g target tries s = (Inl e, s')"
  by (subst on_exception.simps) auto

lemma on_exception_retries:
  "target s = (Inl e, s') \<Longrightarrow> ex e \<Longrightarrow> \<not> g e \<Longrightarrow> tries + 1 < m
     \<Longrightarrow> on_exception ex m g target tries s = on_exception ex m g target (tries + 1) s'"
  by (subst on_exception.simps) auto

lemma no_request_limit_exceeded_code_iff:
  "is_ClientError e \<Longrightarrow> no_request_limit_exceeded_code e = (\<not> rate_limit_error e)"
  by (cases e) (auto simp: dict_get_def split: option.splits)

lemma retry_then_success:
  assumes "\<forall>i<k. \<exists>e. svc (sent @ replicate i q) q = Inl e \<and> ex e \<and> \<not> g e"
      and "svc (sent @ replicate k q) q = Inr v"
      and "tries + k < m"
  shows "on_exception ex m g (call svc q) tries sent = (Inr v, sent @ replicate (Suc k) q)"
  using assms
proof (induction k arbitrary: tries sent)
  case 0
  then show ?case by (simp add: on_exception_returns call_def)
next
  case (Suc k)
  from Suc.prems(1) obtain e where e: "svc sent q = Inl e" "ex e" "\<not> g e"
    by fastforce
  have later: "\<forall>i<k. \<exists>e. svc ((sent @ [q]) @ replicate i q) q = Inl e \<and> ex e \<and> \<not> g e"
  proof (intro allI impI)
    fix i assume "i < k"
    then have "Suc i < Suc k" by simp
    with Suc.prems(1) have "\<exists>e. svc (sent @ replicate (Suc i) q) q = Inl e \<and> ex e \<and> \<not> g e"
      by blast
    then show "\<exists>e. svc ((sent @ [q]) @ replicate i q) q = Inl e \<and> ex e \<and> \<not> g e"
      by simp
  qed
  have last: "svc ((sent @ [q]) @ replicate k q) q = Inr v"
    using Suc.prems(2) by simp
  have "on_exception ex m g (call svc q) tries sent
          = on_exception ex m g (call svc q) (tries + 1) (sent @ [q])"
    using e Suc.prems(3) by (intro on_exception_retries[where e = e]) (simp_all add: call_def)
  also have "\<dots> = (Inr v, (sent @ [q]) @ replicate (Suc k) q)"
    using Suc.IH[OF later last] Suc.prems(3) by simp
  finally show ?case by (simp add: replicate_app_Cons_same)
qed

lemma on_exception_bounded:
  "\<exists>k. 1 \<le> k \<and> (k \<le> m - tries \<or> k = 1)
       \<and> snd (on_exception ex m g (call svc q) tries sent) = sent @ replicate k q"
proof (induction "m - tries" arbitrary: tries sent)
  case 0
  then have "m \<le> tries + 1" by simp
  then have "snd (on_exception ex m g (call svc q) tries sent) = sent @ [q]"
    by (subst on_exception.simps) (auto simp: call_def split: sum.splits)
  then show ?case by (intro exI[of _ 1]) simp
next
  case (Suc n)
  show ?case
  proof (cases "\<exists>e. svc sent q = Inl e \<and> ex e \<and> \<not> g e \<and> tries + 1 < m")
    case False
    then have "snd (on_exception ex m g (call svc q) tries sent) = sent @ [q]"
      by (subst on_exception.simps) (auto simp: call_def split: sum.splits)
    then show ?thesis by (intro exI[of _ 1]) simp
  next
    case True
    then obtain e where e: "svc sent q = Inl e" "ex e" "\<not> g e" "tries + 1 < m"
      by blast
    then have step: "on_exception ex m g (call svc q) tries sent
                 = on_exception ex m g (call svc q) (tries + 1) (sent @ [q])"
      by (intro on_exception_retries[where e = e]) (simp_all add: call_def)
    have "n = m - (tries + 1)" using Suc.hyps(2) by simp
    from Suc.hyps(1)[OF this, of "sent @ [q]"]
    obtain k where k: "1 \<le> k" "k \<le> m - (tries + 1) \<or> k = 1"
        "snd (on_exception ex m g (call svc q) (tries + 1) (sent @ [q])) = (sent @ [q]) @ replicate k q"
      by blast
    show ?thesis
    proof (intro exI[of _ "Suc k"] conjI)
      show "1 \<le> Suc k" by simp
      show "Suc k \<le> m - tries \<or> Suc k = 1" using k(2) e(4) by auto
      show "snd (on_exception ex m g (call svc q) tries sent) = sent @ replicate (Suc k) q"
        using step k(3) by (simp add: replicate_app_Cons_same)
    qed
  qed
qed

lemma get_request_ok:
  "svc sent q = Inr res \<Longrightarrow> get_request svc q sent = (Inr res, sent @ [q])"
  by (simp add: get_request_def on_exception_returns call_def)

lemma get_request_sent:
  "\<exists>k. 1 \<le> k \<and> k \<le> 8 \<and> snd (get_request svc q sent) = sent @ replicate k q"
  using on_exception_bounded [of 8 0 is_Timeout "\<lambda>e. False" svc q sent]
  by (auto simp: get_request_def MAX_RETRIES_def)

subsection \<open>Project discovery\<close>

lemma answers_append:
  "answers svc sent (xs @ ys) = (answers svc sent xs \<and> answers svc (sent @ map fst xs) ys)"
  by (induction xs arbitrary: sent) auto

lemma scan_projects_filter:
  "\<forall>p \<in> set ps. strptime (last_activity_at p) \<noteq> None \<Longrightarrow>
     scan_projects strptime (now - timedelta_hours 4) ps ids
       = Inr (ids @ map obj_id (filter (recent strptime now) ps))"
  by (induction ps arbitrary: ids) (auto simp: recent_def timedelta_hours_def)

lemma project_pages_last_page:
  assumes "srv sent (link, token) = Inr res"
      and "status_code res = 200"
      and "headers res ''Links'' = None"
      and "\<forall>p \<in> set (json res). strptime (last_activity_at p) \<noteq> None"
  shows "project_pages srv strptime (now - timedelta_hours 4) token link ids sent
           = Some (Inr (ids @ map obj_id (filter (recent strptime now) (json res))),
                   sent @ [(link, token)])"
  using assms
  by (subst project_pages.simps) (simp add: get_request_ok scan_projects_filter)

lemma project_pages_error_page:
  assumes "srv sent (link, token) = Inr res"
      and "status_code res \<noteq> 200"
  shows "project_pages srv strptime cutoff token link ids sent
           = Some (Inl (Exception ''Error retrieving all the projects''), sent @ [(link, token)])"
  using assms
  by (subst project_pages.simps) (simp add: get_request_ok)

lemma project_pages_next_page:
  assumes "srv sent (link, token) = Inr res"
      and "status_code res = 200"
      and "headers res ''Links'' = Some links"
      and "next_link links = Inr link'"
      and "scan_projects strptime cutoff (json res) ids = Inr ids'"
  shows "project_pages srv strptime cutoff token link ids sent
           = project_pages srv strptime cutoff token link' ids' (sent @ [(link, token)])"
  using assms
  by (subst project_pages.simps) (simp add: get_request_ok)

lemma project_pages_bad_cursor:
  assumes "srv sent (link, token) = Inr res"
      and "status_code res = 200"
      and "headers res ''Links'' = Some links"
      and "next_link links = Inl e"
      and "scan_projects strptime cutoff (json res) ids = Inr ids'"
  shows "project_pages srv strptime cutoff token link ids sent = Some (Inl e, sent @ [(link, token)])"
  using assms
  by (subst project_pages.simps) (simp add: get_request_ok)

lemma project_pages_follow:
  assumes "pages \<noteq> []"
      and "answers srv sent (page_requests token pages)"
      and "pages_chain pages"
      and "\<forall>p \<in> set (projects_of (butlast pages)). strptime (last_activity_at p) \<noteq> None"
  shows "project_pages srv strptime (now - timedelta_hours 4) token (fst (hd pages)) ids sent
           = project_pages srv strptime (now - timedelta_hours 4) token (fst (last pages))
               (ids @ map obj_id (filter (recent strptime now) (projects_of (butlast pages))))
               (sent @ map fst (page_requests token (butlast pages)))"
  using assms
proof (induction pages arbitrary: sent ids rule: pages_chain.induct)
  case 1
  then show ?case by simp
next
  case (2 link res)
  then show ?case by (simp add: projects_of_def page_requests_def)
next
  case (3 link res link' res' rest)
  from "3.prems"(3) obtain links where links: "status_code res = 200"
      "headers res ''Links'' = Some links" "next_link links = Inr link'"
      "pages_chain ((link', res') # rest)"
    by (auto split: option.splits)
  from "3.prems"(2) have first: "srv sent (link, token) = Inr res"
      and others: "answers srv (sent @ [(link, token)]) (page_requests token ((link', res') # rest))"
    by (simp_all add: page_requests_def)
  from "3.prems"(4) have here: "\<forall>p \<in> set (json res). strptime (last_activity_at p) \<noteq> None"
      and later: "\<forall>p \<in> set (projects_of (butlast ((link', res') # rest))).
                    strptime (last_activity_at p) \<noteq> None"
    by (auto simp: projects_of_def)
  have "project_pages srv strptime (now - timedelta_hours 4) token link ids sent
          = project_pages srv strptime (now - timedelta_hours 4) token link'
              (ids @ map obj_id (filter (recent strptime now) (json res))) (sent @ [(link, token)])"
    using first links(1-3) scan_projects_filter [OF here]
    by (intro project_pages_next_page) simp_all
  also have "\<dots> = project_pages srv strptime (now - timedelta_hours 4) token
                     (fst (last ((link', res') # rest)))
                     ((ids @ map obj_id (filter (recent strptime now) (json res)))
                        @ map obj_id (filter (recent strptime now)
                                        (projects_of (butlast ((link', res') # rest)))))
                     ((sent @ [(link, token)])
                        @ map fst (page_requests token (butlast ((link', res') # rest))))"
    using "3.IH" [OF _ others links(4) later] by simp
  finally show ?case
    by (simp add: projects_of_def page_requests_def)
qed

lemma project_pages_sent_aux:
  assumes "project_pages srv strptime cutoff token link ids sent = Some y"
  shows "\<exists>rest. snd y = sent @ (link, token) # rest"
  using assms
proof (induction srv strptime cutoff token link ids sent y
         rule: project_pages.raw_induct [rotated 1, consumes 1, case_names step])
  case (step f srv strptime cutoff token link ids sent y)
  obtain k where k: "1 \<le> k" "snd (get_request srv (link, token) sent) = sent @ replicate k (link, token)"
    using get_request_sent [of srv "(link, token)" sent] by blast
  then obtain k' where k': "k = Suc k'" by (cases k) auto
  obtain r s1 where g: "get_request srv (link, token) sent = (r, s1)"
    by (cases "get_request srv (link, token) sent")
  with k k' have s1: "s1 = sent @ (link, token) # replicate k' (link, token)"
    by simp
  have "\<exists>rest. snd y = s1 @ rest"
  proof (cases r)
    case (Inl e)
    with step(2) g show ?thesis by auto
  next
    case res: (Inr res)
    show ?thesis
    proof (cases "status_code res \<noteq> 200")
      case True
      with step(2) g res show ?thesis by auto
    next
      case ok: False
      show ?thesis
      proof (cases "scan_projects strptime cutoff (json res) ids")
        case (Inl e)
        with step(2) g res ok show ?thesis by auto
      next
        case scanned: (Inr ids')
        show ?thesis
        proof (cases "headers res ''Links''")
          case None
          with step(2) g res ok scanned show ?thesis by auto
        next
          case links: (Some links)
          show ?thesis
          proof (cases "next_link links")
            case (Inl e)
            with step(2) g res ok scanned links show ?thesis by auto
          next
            case (Inr link')
            with step(2) g res ok scanned links
            have "f srv strptime cutoff token link' ids' s1 = Some y" by simp
            from step(1) [OF this] show ?thesis by auto
          qed
        qed
      qed
    qed
  qed
  with s1 show ?case by auto
qed

lemma project_pages_sent:
  "project_pages srv strptime cutoff token link ids sent = Some (out, sent')
     \<Longrightarrow> \<exists>rest. sent' = sent @ (link, token) # rest"
  using project_pages_sent_aux [of srv strptime cutoff token link ids sent "(out, sent')"]
  by simp

lemma three_projects_discovered:
  "get_all_project_ids example_config (table_server (three_projects @ jobs_table fetched))
     example_strptime example_now ''secret'' []
   = Some (Inr [1, 2, 3], [(first_link example_config, ''secret'')])"
proof -
  have "project_pages (table_server (three_projects @ jobs_table fetched)) example_strptime
          (example_now - timedelta_hours 4) ''secret'' (first_link example_config) [] []
        = Some (Inr ([] @ map obj_id (filter (recent example_strptime example_now)
                                        (json (ok [project 1 ''10'', project 2 ''10'', project 3 ''10''])))),
                [] @ [(first_link example_config, ''secret'')])"
    by (rule project_pages_last_page)
       (simp_all add: three_projects_def example_defs)
  then show ?thesis
    by (simp add: get_all_project_ids_def example_defs)
qed

subsection \<open>Job aggregation and instances\<close>

lemma get_pending_jobs_answer:
  "srv sent (jobs_url cfg project_id ''pending'', token) = Inr res \<Longrightarrow>
     get_pending_jobs cfg srv project_id token sent
       = (Inr (if status_code res \<noteq> 200 then [] else json res),
          sent @ [(jobs_url cfg project_id ''pending'', token)])"
  by (simp add: get_pending_jobs_def jobs_url_def get_request_ok)

lemma get_running_jobs_answer:
  "srv sent (jobs_url cfg project_id ''running'', token) = Inr res \<Longrightarrow>
     get_running_jobs cfg srv project_id token sent
       = (Inr (if status_code res \<noteq> 200 then [] else json res),
          sent @ [(jobs_url cfg project_id ''running'', token)])"
  by (simp add: get_running_jobs_def jobs_url_def get_request_ok)

lemma job_ids_loop_answers:
  "answers srv sent (job_requests cfg token fetched) \<Longrightarrow>
     job_ids_loop cfg srv token (map fst fetched) (pending_job_ids, running_job_ids) sent
       = (Inr (pending_job_ids
                 @ concat (map (\<lambda>(project_id, pending, running). listed_job_ids pending) fetched),
               running_job_ids
                 @ concat (map (\<lambda>(project_id, pending, running). listed_job_ids running) fetched)),
          sent @ map fst (job_requests cfg token fetched))"
proof (induction fetched arbitrary: sent pending_job_ids running_job_ids)
  case Nil
  then show ?case by simp
next
  case (Cons f fetched)
  obtain project_id pending running where f: "f = (project_id, pending, running)"
    by (cases f)
  let ?s1 = "sent @ [(jobs_url cfg project_id ''pending'', token)]"
  let ?s2 = "?s1 @ [(jobs_url cfg project_id ''running'', token)]"
  from Cons.prems f have p: "srv sent (jobs_url cfg project_id ''pending'', token) = Inr pending"
    and r: "srv ?s1 (jobs_url cfg project_id ''running'', token) = Inr running"
    and rest: "answers srv ?s2 (job_requests cfg token fetched)"
    by simp_all
  have pj: "get_pending_jobs cfg srv project_id token sent
              = (Inr (if status_code pending \<noteq> 200 then [] else json pending), ?s1)"
    using p by (rule get_pending_jobs_answer)
  have rj: "get_running_jobs cfg srv project_id token ?s1
              = (Inr (if status_code running \<noteq> 200 then [] else json running), ?s2)"
    using r by (rule get_running_jobs_answer)
  show ?case
    using Cons.IH [OF rest] f
    by (simp add: pj rj listed_job_ids_def)
qed

lemma count_in_service_filter:
  "count_in_service insts n =
     n + length (filter (\<lambda>i. HealthStatus i = ''Healthy'' \<and> LifecycleState i = ''InService'') insts)"
  by (induction insts arbitrary: n) auto

subsection \<open>Floats\<close>

lemma bit_length_bounds:
  "0 < n \<Longrightarrow> 2 ^ (bit_length n - 1) \<le> n \<and> n < 2 ^ bit_length n"
proof (induction n rule: bit_length.induct)
  case (1 n)
  show ?case
  proof (cases "n div 2 = 0")
    case True
    with 1(2) have "n = 1" by (cases n) auto
    then show ?thesis by (simp add: bit_length.simps)
  next
    case False
    then have ih: "2 ^ (bit_length (n div 2) - 1) \<le> n div 2" "n div 2 < 2 ^ bit_length (n div 2)"
      using 1 by auto
    have pos: "0 < bit_length (n div 2)"
      using False by (subst bit_length.simps) simp
    have bl: "bit_length n = Suc (bit_length (n div 2))"
      using 1(2) by (subst bit_length.simps) simp
    have "2 ^ (bit_length n - 1) = 2 * 2 ^ (bit_length (n div 2) - 1)"
      using pos bl by (cases "bit_length (n div 2)") auto
    also have "\<dots> \<le> 2 * (n div 2)" using ih(1) by simp
    also have "\<dots> \<le> n" by simp
    finally have lower: "2 ^ (bit_length n - 1) \<le> n" .
    have "n < 2 * (n div 2) + 2" by presburger
    also have "\<dots> \<le> 2 * 2 ^ bit_length (n div 2)" using ih(2) by simp
    finally have "n < 2 ^ bit_length n" using bl by simp
    with lower show ?thesis by simp
  qed
qed

lemma exponent_bounds:
  assumes "0 < x"
  shows "2 powi exponent x \<le> x \<and> x < 2 powi (exponent x + 1)"
proof -
  obtain p q where pq: "quotient_of x = (p, q)"
    by (cases "quotient_of x")
  then have q: "0 < q" and x: "x = of_int p / of_int q"
    by (simp_all add: quotient_of_denom_pos quotient_of_div)
  with assms have p: "0 < p"
    by (simp add: zero_less_divide_iff)
  define bp where "bp = bit_length (nat p)"
  define bq where "bq = bit_length (nat q)"
  define d where "d = int bp - int bq"
  from bit_length_bounds [of "nat p"] p
  have p1: "2 ^ (bp - 1) \<le> nat p" and p2: "nat p < 2 ^ bp"
    by (simp_all add: bp_def)
  from bit_length_bounds [of "nat q"] q
  have q1: "2 ^ (bq - 1) \<le> nat q" and q2: "nat q < 2 ^ bq"
    by (simp_all add: bq_def)
  have bp0: "0 < bp" using p2 p by (cases bp) auto
  have bq0: "0 < bq" using q2 q by (cases bq) auto
  have P1: "(2::rat) ^ bp \<le> 2 * of_int p"
  proof -
    have "(2::nat) ^ bp = 2 * 2 ^ (bp - 1)" using bp0 by (cases bp) auto
    also have "\<dots> \<le> 2 * nat p" using p1 by simp
    finally have "of_nat ((2::nat) ^ bp) \<le> (of_nat (2 * nat p) :: rat)"
      by (rule of_nat_mono)
    then show ?thesis using p by simp
  qed
  have P2: "of_int p < (2::rat) ^ bp"
  proof -
    have "of_nat (nat p) < (of_nat (2 ^ bp) :: rat)" using p2 by (simp only: of_nat_less_iff)
    then show ?thesis using p by simp
  qed
  have Q1: "(2::rat) ^ bq \<le> 2 * of_int q"
  proof -
    have "(2::nat) ^ bq = 2 * 2 ^ (bq - 1)" using bq0 by (cases bq) auto
    also have "\<dots> \<le> 2 * nat q" using q1 by simp
    finally have "of_nat ((2::nat) ^ bq) \<le> (of_nat (2 * nat q) :: rat)"
      by (rule of_nat_mono)
    then show ?thesis using q by simp
  qed
  have Q2: "of_int q < (2::rat) ^ bq"
  proof -
    have "of_nat (nat q) < (of_nat (2 ^ bq) :: rat)" using q2 by (simp only: of_nat_less_iff)
    then show ?thesis using q by simp
  qed
  have pd: "(2::rat) powi d = 2 ^ bp / 2 ^ bq"
    by (simp add: d_def power_int_diff)
  have pd1: "(2::rat) powi (d + 1) = 2 * 2 ^ bp / 2 ^ bq"
    by (simp add: d_def power_int_add power_int_diff)
  have pdm: "(2::rat) powi (d - 1) = 2 ^ bp / (2 * 2 ^ bq)"
    by (simp add: d_def power_int_diff)
  have qpos: "(0::rat) < of_int q" using q by simp
  have ppos: "(0::rat) < of_int p" using p by simp
  have upper: "x < 2 powi (d + 1)"
  proof -
    have "of_int p * (2::rat) ^ bq < 2 ^ bp * 2 ^ bq"
      using P2 by simp
    also have "\<dots> \<le> 2 ^ bp * (2 * of_int q)"
      using Q1 by simp
    finally have "of_int p * (2::rat) ^ bq < 2 * 2 ^ bp * of_int q" by (simp add: mult_ac)
    then show ?thesis
      unfolding x pd1 using qpos by (simp add: divide_simps mult_ac)
  qed
  have lower: "2 powi (d - 1) \<le> x"
  proof -
    have "(2::rat) ^ bp * of_int q \<le> 2 * of_int p * of_int q"
      using P1 qpos by simp
    also have "\<dots> \<le> 2 * of_int p * 2 ^ bq"
      using Q2 ppos by simp
    finally have "(2::rat) ^ bp * of_int q \<le> of_int p * (2 * 2 ^ bq)" by (simp add: mult_ac)
    then show ?thesis
      unfolding x pdm using qpos by (simp add: divide_simps mult_ac)
  qed
  have e: "exponent x = (if 2 powi d \<le> x then d else d - 1)"
    by (simp add: exponent_def pq d_def bp_def bq_def Let_def)
  show ?thesis
  proof (cases "2 powi d \<le> x")
    case True
    with e upper show ?thesis by simp
  next
    case False
    with e lower show ?thesis by simp
  qed
qed

lemma exponent_unique:
  assumes "2 powi e \<le> x" "x < 2 powi (e + 1)"
  shows "exponent x = e"
proof -
  have "(0::rat) < 2 powi e" by simp
  with assms(1) have pos: "0 < x" by linarith
  from exponent_bounds [OF pos]
  have b: "2 powi exponent x \<le> x" "x < 2 powi (exponent x + 1)" by simp_all
  have "(2::rat) powi e < 2 powi (exponent x + 1)" using assms(1) b(2) by linarith
  moreover have "(2::rat) powi exponent x < 2 powi (e + 1)" using assms(2) b(1) by linarith
  ultimately have lt: "(2::rat) powi e < 2 powi (exponent x + 1)"
      "(2::rat) powi exponent x < 2 powi (e + 1)" by simp_all
  have 1: "e < exponent x + 1"
  proof (rule ccontr)
    assume "\<not> e < exponent x + 1"
    then have "(2::rat) powi (exponent x + 1) \<le> 2 powi e"
      by (intro power_int_increasing) simp_all
    with lt(1) show False by linarith
  qed
  have 2: "exponent x < e + 1"
  proof (rule ccontr)
    assume "\<not> exponent x < e + 1"
    then have "(2::rat) powi (e + 1) \<le> 2 powi exponent x"
      by (intro power_int_increasing) simp_all
    with lt(2) show False by linarith
  qed
  from 1 2 show ?thesis by simp
qed

lemma round_half_even_error: "\<bar>of_int (round_half_even y) - y\<bar> \<le> 1 / 2"
proof -
  have "of_int \<lfloor>y\<rfloor> \<le> y" "y < of_int \<lfloor>y\<rfloor> + 1"
    by linarith+
  then show ?thesis
    by (auto simp: round_half_even_def Let_def abs_le_iff)
qed

lemma round_half_even_of_int: "round_half_even (of_int n) = n"
  by (simp add: round_half_even_def)

lemma round_double_error:
  assumes "2 powi (- 1022) \<le> x" "x < 2 powi 1023"
  shows "\<exists>m. round_double x = Some m \<and> \<bar>m - x\<bar> \<le> x / 2 ^ 53"
proof -
  have "(0::rat) < 2 powi (- 1022)" by (rule zero_less_power_int) simp
  with assms(1) have pos: "0 < x" by linarith
  define e where "e = exponent x"
  from exponent_bounds [OF pos]
  have b: "2 powi e \<le> x" "x < 2 powi (e + 1)" by (simp_all add: e_def)
  have lo: "- 1022 \<le> e"
  proof (rule ccontr)
    assume "\<not> - 1022 \<le> e"
    then have "(2::rat) powi (e + 1) \<le> 2 powi (- 1022)"
      by (intro power_int_increasing) simp_all
    with assms(1) b(2) show False by linarith
  qed
  have hi: "e \<le> 1022"
  proof (rule ccontr)
    assume "\<not> e \<le> 1022"
    then have "(2::rat) powi 1023 \<le> 2 powi e"
      by (intro power_int_increasing) simp_all
    with assms(2) b(1) show False by linarith
  qed
  define q :: rat where "q = 2 powi (e - 52)"
  have qpos: "0 < q" unfolding q_def by (rule zero_less_power_int) simp
  define m where "m = of_int (round_half_even (x / q)) * q"
  have "m - x = (of_int (round_half_even (x / q)) - x / q) * q"
    using qpos by (simp add: m_def algebra_simps)
  then have "\<bar>m - x\<bar> = \<bar>of_int (round_half_even (x / q)) - x / q\<bar> * q"
    using qpos by (simp add: abs_mult)
  also have "\<dots> \<le> (1 / 2) * q"
    using round_half_even_error [of "x / q"] qpos by (intro mult_right_mono) simp_all
  finally have err: "\<bar>m - x\<bar> \<le> q / 2" by simp
  have q2: "q / 2 = 2 powi e / 2 ^ 54 * 2"
    by (simp add: q_def power_int_diff)
  have half: "q / 2 = 2 powi e / 2 ^ 53"
    unfolding q2 by simp
  have "q / 2 \<le> x / 2 ^ 53"
    unfolding half using b(1) by (simp add: divide_right_mono)
  with err have bound: "\<bar>m - x\<bar> \<le> x / 2 ^ 53" by linarith
  have "m \<le> x + q / 2" using err by linarith
  also have "\<dots> < 2 powi (e + 1) + 2 powi e"
  proof -
    have "2 powi e / 2 ^ 53 \<le> (2::rat) powi e"
      by (simp add: divide_le_eq)
    with b(2) half show ?thesis by linarith
  qed
  also have "\<dots> \<le> 2 powi 1023 + 2 powi 1023"
  proof -
    have "(2::rat) powi (e + 1) \<le> 2 powi 1023" using hi by (intro power_int_increasing) simp_all
    moreover have "(2::rat) powi e \<le> 2 powi 1023" using hi by (intro power_int_increasing) simp_all
    ultimately show ?thesis by linarith
  qed
  also have "\<dots> = 2 powi 1024"
    by (simp add: power_int_def)
  finally have fits: "m < 2 powi 1024" .
  have "round_double x = Some m"
    using pos lo fits
    by (simp add: round_double_def Let_def m_def q_def e_def max_def)
  with bound show ?thesis by blast
qed

lemma round_double_of_int:
  assumes "0 \<le> i" "i < 2 ^ 53"
  shows "round_double (of_int i) = Some (of_int i)"
proof (cases "i = 0")
  case True
  then show ?thesis by (simp add: round_double_def)
next
  case False
  define x :: rat where "x = of_int i"
  have "1 \<le> i" using False assms(1) by simp
  then have "(of_int 1 :: rat) \<le> of_int i" by (simp only: of_int_le_iff)
  then have x1: "1 \<le> x" by (simp add: x_def)
  then have pos: "0 < x" by linarith
  have "of_int i < (of_int (2 ^ 53) :: rat)" using assms(2) by (simp only: of_int_less_iff)
  then have x2: "x < 2 ^ 53" by (simp add: x_def)
  define e where "e = exponent x"
  from exponent_bounds [OF pos]
  have b: "2 powi e \<le> x" "x < 2 powi (e + 1)" by (simp_all add: e_def)
  have lo: "0 \<le> e"
  proof (rule ccontr)
    assume "\<not> 0 \<le> e"
    then have "(2::rat) powi (e + 1) \<le> 2 powi 0"
      by (intro power_int_increasing) simp_all
    with x1 b(2) show False by simp
  qed
  have hi: "e \<le> 52"
  proof (rule ccontr)
    assume "\<not> e \<le> 52"
    then have "(2::rat) powi 53 \<le> 2 powi e"
      by (intro power_int_increasing) simp_all
    moreover have "(2::rat) powi 53 = 2 ^ 53" by (simp add: power_int_def)
    ultimately show False using x2 b(1) by linarith
  qed
  define k where "k = nat (52 - e)"
  have q: "(2::rat) powi (e - 52) = 1 / 2 ^ k"
    using hi by (simp add: k_def power_int_def field_simps)
  have y: "x / (2 powi (e - 52)) = of_int (i * 2 ^ k)"
    unfolding q by (simp add: x_def)
  have r: "round_half_even (x / (2 powi (e - 52))) = i * 2 ^ k"
    unfolding y by (rule round_half_even_of_int)
  have m: "of_int (round_half_even (x / (2 powi (e - 52)))) * (2 powi (e - 52)) = x"
    unfolding r unfolding q by (simp add: x_def)
  have "x < 2 powi 1024"
  proof -
    have "(2::rat) powi 53 \<le> 2 powi 1024" by (intro power_int_increasing) simp_all
    moreover have "(2::rat) powi 53 = 2 ^ 53" by (simp add: power_int_def)
    ultimately show ?thesis using x2 by linarith
  qed
  then have "round_double x = Some x"
    using pos lo m
    by (simp add: round_double_def Let_def e_def max_def)
  then show ?thesis by (simp add: x_def)
qed

lemma py_float_exact:
  assumes "\<bar>i\<bar> < 2 ^ 53"
  shows "py_float i = Inr (Finite (i < 0) (of_int \<bar>i\<bar>))"
proof -
  have "round_double (of_int \<bar>i\<bar>) = Some (of_int \<bar>i\<bar>)"
    using assms by (intro round_double_of_int) simp_all
  then show ?thesis by (simp add: py_float_def)
qed

lemma round_double_quotient:
  assumes "0 \<le> a" "a < 2 ^ 53" "0 < b" "b < 2 ^ 53"
  shows "\<exists>m. round_double (of_int a / of_int b) = Some m
             \<and> \<bar>m - of_int a / of_int b\<bar> \<le> (of_int a / of_int b) / 2 ^ 53"
proof (cases "a = 0")
  case True
  then show ?thesis by (simp add: round_double_def)
next
  case False
  define x :: rat where "x = of_int a / of_int b"
  have "1 \<le> a" using False assms(1) by simp
  then have "(of_int 1 :: rat) \<le> of_int a" by (simp only: of_int_le_iff)
  then have A: "(1::rat) \<le> of_int a" by simp
  have "of_int a < (of_int (2 ^ 53) :: rat)" using assms(2) by (simp only: of_int_less_iff)
  then have A2: "of_int a < (2::rat) ^ 53" by simp
  have "1 \<le> b" using assms(3) by simp
  then have "(of_int 1 :: rat) \<le> of_int b" by (simp only: of_int_le_iff)
  then have B: "(1::rat) \<le> of_int b" by simp
  have "of_int b < (of_int (2 ^ 53) :: rat)" using assms(4) by (simp only: of_int_less_iff)
  then have B2: "of_int b < (2::rat) ^ 53" by simp
  have bpos: "(0::rat) < of_int b" using B by linarith
  have lo: "1 / 2 ^ 53 \<le> x"
  proof -
    have "(2::rat) ^ 53 * 1 \<le> 2 ^ 53 * of_int a" using A by (intro mult_left_mono) simp_all
    with B2 have "1 * of_int b \<le> of_int a * (2::rat) ^ 53" by simp
    then show ?thesis unfolding x_def using bpos by (simp add: divide_simps mult_ac)
  qed
  have hi: "x < 2 ^ 53"
  proof -
    have "(2::rat) ^ 53 * 1 \<le> 2 ^ 53 * of_int b" using B by (intro mult_left_mono) simp_all
    with A2 have "of_int a < (2::rat) ^ 53 * of_int b" by simp
    then show ?thesis unfolding x_def using bpos by (simp add: divide_simps mult_ac)
  qed
  have "(2::rat) powi (- 1022) \<le> 2 powi (- 53)"
    by (intro power_int_increasing) simp_all
  moreover have "(2::rat) powi (- 53) = 1 / 2 ^ 53" by (simp add: power_int_def field_simps)
  ultimately have l: "2 powi (- 1022) \<le> x" using lo by linarith
  have "(2::rat) powi 53 \<le> 2 powi 1023"
    by (intro power_int_increasing) simp_all
  moreover have "(2::rat) powi 53 = 2 ^ 53" by (simp add: power_int_def)
  ultimately have h: "x < 2 powi 1023" using hi by linarith
  from round_double_error [OF l h] show ?thesis by (simp add: x_def)
qed

lemma round_double_third: "round_double (100 / 3) = Some (4691249611844267 / 140737488355328)"
proof -
  have e: "exponent (100 / 3) = 5"
    by (rule exponent_unique) (simp_all add: power_int_def)
  have q: "(2::rat) powi (max 5 (- 1022) - 52) = 1 / 140737488355328"
    by (simp add: power_int_def field_simps)
  have y: "100 / 3 / (1 / 140737488355328) = (14073748835532800 / 3 :: rat)"
    by simp
  have f: "\<lfloor>14073748835532800 / 3 :: rat\<rfloor> = 4691249611844266"
    by (rule floor_unique) simp_all
  have r: "round_half_even (14073748835532800 / 3) = 4691249611844267"
    by (simp add: round_half_even_def Let_def f)
  have "(4691249611844267 / 140737488355328 :: rat) < 2 powi 6" by (simp add: power_int_def)
  also have "(2::rat) powi 6 \<le> 2 powi 1024" by (intro power_int_increasing) simp_all
  finally have fits: "(4691249611844267 / 140737488355328 :: rat) < 2 powi 1024" .
  show ?thesis
    unfolding round_double_def Let_def e q y r using fits by simp
qed

lemma round_double_overflow:
  assumes "2 powi 1024 \<le> x"
  shows "round_double x = None"
proof -
  have "(0::rat) < 2 powi 1024" by (rule zero_less_power_int) simp
  with assms have pos: "0 < x" by linarith
  define e where "e = exponent x"
  from exponent_bounds [OF pos]
  have b: "2 powi e \<le> x" "x < 2 powi (e + 1)" by (simp_all add: e_def)
  have big: "1024 \<le> e"
  proof (rule ccontr)
    assume "\<not> 1024 \<le> e"
    then have "(2::rat) powi (e + 1) \<le> 2 powi 1024"
      by (intro power_int_increasing) simp_all
    with assms b(2) show False by linarith
  qed
  define q :: rat where "q = 2 powi (e - 52)"
  have qpos: "0 < q" unfolding q_def by (rule zero_less_power_int) simp
  have pe: "(2::rat) powi e = 2 ^ 52 * q"
    by (simp add: q_def power_int_diff)
  have "(2::rat) ^ 52 \<le> x / q"
    using b(1) qpos unfolding pe by (simp add: le_divide_eq)
  then have "of_int (2 ^ 52) \<le> x / q" by simp
  then have "2 ^ 52 \<le> \<lfloor>x / q\<rfloor>" by (simp only: le_floor_iff)
  moreover have "\<lfloor>x / q\<rfloor> \<le> round_half_even (x / q)"
    by (simp add: round_half_even_def Let_def)
  ultimately have "(2::int) ^ 52 \<le> round_half_even (x / q)" by linarith
  then have "of_int (2 ^ 52) \<le> (of_int (round_half_even (x / q)) :: rat)"
    by (simp only: of_int_le_iff)
  then have "2 ^ 52 * q \<le> of_int (round_half_even (x / q)) * q"
    using qpos by (intro mult_right_mono) simp_all
  with pe have "2 powi e \<le> of_int (round_half_even (x / q)) * q" by simp
  moreover have "(2::rat) powi 1024 \<le> 2 powi e"
    using big by (intro power_int_increasing) simp_all
  ultimately have "\<not> of_int (round_half_even (x / q)) * q < 2 powi 1024" by linarith
  then show ?thesis
    using pos big
    unfolding round_double_def Let_def e_def [symmetric]
    by (simp add: max_def q_def)
qed


section \<open>The load\<close>

text \<open>
  Claim C1, as amended. With no healthy instance in service the load is the integer
  100, whatever the number of running jobs and the capacity. With a positive number
  of healthy instances, a capacity per instance other than zero, and
  \<open>100 * running_jobs\<close> and \<open>healthy_instances * |runners_per_instance|\<close> both below
  \<open>2 ^ 53\<close> (so that \<^verbatim>\<open>float()\<close> converts them exactly), the load is a float with the
  sign of the capacity whose magnitude is the double nearest to
  \<open>100 * running_jobs / (healthy_instances * |runners_per_instance|)\<close>, within a
  relative error of \<open>2 ^ (- 53)\<close> of it; it may exceed 100. With 2 healthy
  instances, capacity 4 and 4 running jobs it is 50.0 exactly.
\<close>

theorem runners_overall_load_value:
  "runners_overall_load cfg running_jobs 0 = Inr (PyInt 100)
   \<and> (0 < healthy \<and> RUNNERS_PER_INSTANCE cfg \<noteq> 0
        \<and> 100 * int running_jobs < 2 ^ 53
        \<and> int healthy * \<bar>RUNNERS_PER_INSTANCE cfg\<bar> < 2 ^ 53 \<longrightarrow>
        (\<exists>m. runners_overall_load cfg running_jobs healthy
                = Inr (PyFloat (Finite (RUNNERS_PER_INSTANCE cfg < 0) m))
             \<and> round_double (100 * of_nat running_jobs
                               / (of_nat healthy * of_int \<bar>RUNNERS_PER_INSTANCE cfg\<bar>)) = Some m
             \<and> \<bar>m - 100 * of_nat running_jobs
                       / (of_nat healthy * of_int \<bar>RUNNERS_PER_INSTANCE cfg\<bar>)\<bar>
                 \<le> 100 * of_nat running_jobs
                       / (of_nat healthy * of_int \<bar>RUNNERS_PER_INSTANCE cfg\<bar>) / 2 ^ 53))
   \<and> (RUNNERS_PER_INSTANCE cfg = 4 \<longrightarrow>
        runners_overall_load cfg 4 2 = Inr (PyFloat (Finite False 50)))"
proof (intro conjI impI)
  show "runners_overall_load cfg running_jobs 0 = Inr (PyInt 100)"
    by (simp add: runners_overall_load_def)
next
  assume h: "0 < healthy \<and> RUNNERS_PER_INSTANCE cfg \<noteq> 0
        \<and> 100 * int running_jobs < 2 ^ 53
        \<and> int healthy * \<bar>RUNNERS_PER_INSTANCE cfg\<bar> < 2 ^ 53"
  define c where "c = RUNNERS_PER_INSTANCE cfg"
  define a where "a = 100 * int running_jobs"
  define b where "b = int healthy * \<bar>c\<bar>"
  have a0: "0 \<le> a" by (simp add: a_def)
  have a: "a < 2 ^ 53" using h by (simp add: a_def)
  have b0: "0 < b" using h by (simp add: b_def c_def)
  have b: "b < 2 ^ 53" using h by (simp add: b_def c_def)
  have "\<bar>a\<bar> < 2 ^ 53" using a a0 by simp
  from py_float_exact [OF this]
  have num: "py_float (100 * int running_jobs) = Inr (Finite False (of_int a))"
    using a0 by (simp add: a_def)
  have ab: "\<bar>int healthy * c\<bar> = b" by (simp add: b_def abs_mult)
  have sg: "(int healthy * c < 0) = (c < 0)" using h by (simp add: mult_less_0_iff)
  have "\<bar>int healthy * c\<bar> < 2 ^ 53" using b ab by simp
  from py_float_exact [OF this]
  have den: "py_float (int healthy * c) = Inr (Finite (c < 0) (of_int b))"
    by (simp add: ab sg)
  from round_double_quotient [OF a0 a b0 b]
  obtain m where m: "round_double (of_int a / of_int b) = Some m"
      "\<bar>m - of_int a / of_int b\<bar> \<le> (of_int a / of_int b) / 2 ^ 53"
    by blast
  have bne: "(of_int b :: rat) \<noteq> 0" using b0 by simp
  have load: "runners_overall_load cfg running_jobs healthy = Inr (PyFloat (Finite (c < 0) m))"
    using h num den m(1) bne
    by (simp add: runners_overall_load_def c_def [symmetric])
  have q: "(100 * of_nat running_jobs / (of_nat healthy * of_int \<bar>c\<bar>) :: rat)
             = of_int a / of_int b"
    by (simp add: a_def b_def)
  show "\<exists>m. runners_overall_load cfg running_jobs healthy
                = Inr (PyFloat (Finite (RUNNERS_PER_INSTANCE cfg < 0) m))
             \<and> round_double (100 * of_nat running_jobs
                               / (of_nat healthy * of_int \<bar>RUNNERS_PER_INSTANCE cfg\<bar>)) = Some m
             \<and> \<bar>m - 100 * of_nat running_jobs
                       / (of_nat healthy * of_int \<bar>RUNNERS_PER_INSTANCE cfg\<bar>)\<bar>
                 \<le> 100 * of_nat running_jobs
                       / (of_nat healthy * of_int \<bar>RUNNERS_PER_INSTANCE cfg\<bar>) / 2 ^ 53"
    unfolding c_def [symmetric] q using load m by blast
next
  assume c: "RUNNERS_PER_INSTANCE cfg = 4"
  have num: "py_float 400 = Inr (Finite False 400)"
    using py_float_exact [of 400] by simp
  have den: "py_float 8 = Inr (Finite False 8)"
    using py_float_exact [of 8] by simp
  have "round_double (of_int 50) = Some (of_int 50)"
    by (rule round_double_of_int) simp_all
  then have quot: "round_double (400 / 8) = Some 50" by simp
  show "runners_overall_load cfg 4 2 = Inr (PyFloat (Finite False 50))"
    using c num den quot by (simp add: runners_overall_load_def)
qed

theorem runners_overall_load_value_witness:
  "runners_overall_load example_config 7 0 = Inr (PyInt 100)
   \<and> runners_overall_load example_config 4 2 = Inr (PyFloat (Finite False 50))
   \<and> runners_overall_load (example_config\<lparr>RUNNERS_PER_INSTANCE := 3\<rparr>) 1 1
       = Inr (PyFloat (Finite False (4691249611844267 / 140737488355328)))
   \<and> \<bar>4691249611844267 / 140737488355328 - 100 / 3\<bar> \<le> (100 / 3 :: rat) / 2 ^ 53"
proof -
  note four = runners_overall_load_value [of example_config 7 2]
  have a: "runners_overall_load example_config 7 0 = Inr (PyInt 100)"
    using four by simp
  have b: "runners_overall_load example_config 4 2 = Inr (PyFloat (Finite False 50))"
    using four by (simp add: example_config_def)
  have pre: "0 < (1::nat) \<and> RUNNERS_PER_INSTANCE (example_config\<lparr>RUNNERS_PER_INSTANCE := 3\<rparr>) \<noteq> 0
        \<and> 100 * int 1 < 2 ^ 53
        \<and> int 1 * \<bar>RUNNERS_PER_INSTANCE (example_config\<lparr>RUNNERS_PER_INSTANCE := 3\<rparr>)\<bar> < 2 ^ 53"
    by simp
  from runners_overall_load_value [of "example_config\<lparr>RUNNERS_PER_INSTANCE := 3\<rparr>" 1 1] pre
  obtain m where m:
      "runners_overall_load (example_config\<lparr>RUNNERS_PER_INSTANCE := 3\<rparr>) 1 1
         = Inr (PyFloat (Finite (RUNNERS_PER_INSTANCE (example_config\<lparr>RUNNERS_PER_INSTANCE := 3\<rparr>) < 0) m))"
      "round_double (100 * of_nat 1
                       / (of_nat 1 * of_int \<bar>RUNNERS_PER_INSTANCE (example_config\<lparr>RUNNERS_PER_INSTANCE := 3\<rparr>)\<bar>))
         = Some m"
      "\<bar>m - 100 * of_nat 1
              / (of_nat 1 * of_int \<bar>RUNNERS_PER_INSTANCE (example_config\<lparr>RUNNERS_PER_INSTANCE := 3\<rparr>)\<bar>)\<bar>
         \<le> 100 * of_nat 1
              / (of_nat 1 * of_int \<bar>RUNNERS_PER_INSTANCE (example_config\<lparr>RUNNERS_PER_INSTANCE := 3\<rparr>)\<bar>) / 2 ^ 53"
    by blast
  from m(2) have "m = 4691249611844267 / 140737488355328"
    by (simp add: round_double_third)
  with m(1) m(3) a b show ?thesis by simp
qed

text \<open>
  Claim C1 as stated, for every capacity, fails at capacity 0: with 2 healthy
  instances and 4 running jobs the handler computes no load, it raises
  \<^verbatim>\<open>ZeroDivisionError\<close>. It fails as well at a capacity beyond the range of a double,
  here \<open>2 ^ 1024\<close>, where \<^verbatim>\<open>float()\<close> raises \<^verbatim>\<open>OverflowError\<close>.
\<close>

theorem runners_overall_load_zero_capacity:
  "runners_overall_load (example_config\<lparr>RUNNERS_PER_INSTANCE := 0\<rparr>) 4 2 = Inl ZeroDivisionError
   \<and> runners_overall_load (example_config\<lparr>RUNNERS_PER_INSTANCE := 2 ^ 1024\<rparr>) 4 2
       = Inl OverflowError"
proof -
  have num: "py_float 400 = Inr (Finite False 400)"
    using py_float_exact [of 400] by simp
  have zero: "py_float 0 = Inr (Finite False 0)"
    using py_float_exact [of 0] by simp
  have "(2::rat) powi 1024 \<le> of_int \<bar>2 * 2 ^ 1024\<bar>"
    by (simp add: power_int_def)
  then have "round_double (of_int \<bar>2 * 2 ^ 1024\<bar>) = None"
    by (rule round_double_overflow)
  then have big: "py_float (2 * 2 ^ 1024) = Inl OverflowError"
    unfolding py_float_def by simp
  show ?thesis
    using num zero big by (simp add: runners_overall_load_def)
qed

section \<open>Project discovery\<close>



section \<open>Job aggregation\<close>

text \<open>
  Claim C3. Let discovery return the projects of \<open>fetched\<close>, and let the API answer
  the pending and the running job listing of each of them with any responses,
  whatever their status. Then aggregation does not raise: it sends both requests of
  every project, and returns the job ids of the responses with status 200, while a
  response with another status contributes no job at all to its scope. In
  particular \<^verbatim>\<open>get_pending_jobs\<close> and \<^verbatim>\<open>get_running_jobs\<close> return the empty list,
  not an exception, on a response whose status is not 200.
\<close>

theorem failed_job_listing_counts_zero:
  assumes "get_all_project_ids cfg srv strptime now token sent = Some (Inr (map fst fetched), sent1)"
      and "answers srv sent1 (job_requests cfg token fetched)"
  shows "get_all_pending_and_running_job_ids cfg srv strptime now token sent
           = Some (Inr (concat (map (\<lambda>(project_id, pending, running).
                                       if status_code pending \<noteq> 200 then []
                                       else map obj_id (json pending)) fetched),
                        concat (map (\<lambda>(project_id, pending, running).
                                       if status_code running \<noteq> 200 then []
                                       else map obj_id (json running)) fetched)),
                   sent1 @ map fst (job_requests cfg token fetched))
       \<and> (\<forall>sent' project_id res.
             srv sent' (jobs_url cfg project_id ''pending'', token) = Inr res
               \<and> status_code res \<noteq> 200
             \<longrightarrow> get_pending_jobs cfg srv project_id token sent'
                   = (Inr [], sent' @ [(jobs_url cfg project_id ''pending'', token)]))
       \<and> (\<forall>sent' project_id res.
             srv sent' (jobs_url cfg project_id ''running'', token) = Inr res
               \<and> status_code res \<noteq> 200
             \<longrightarrow> get_running_jobs cfg srv project_id token sent'
                   = (Inr [], sent' @ [(jobs_url cfg project_id ''running'', token)]))"
proof (intro conjI allI impI)
  show "get_all_pending_and_running_job_ids cfg srv strptime now token sent
           = Some (Inr (concat (map (\<lambda>(project_id, pending, running).
                                       if status_code pending \<noteq> 200 then []
                                       else map obj_id (json pending)) fetched),
                        concat (map (\<lambda>(project_id, pending, running).
                                       if status_code running \<noteq> 200 then []
                                       else map obj_id (json running)) fetched)),
                   sent1 @ map fst (job_requests cfg token fetched))"
    using assms(1) job_ids_loop_answers [OF assms(2), of "[]" "[]"]
    by (simp add: get_all_pending_and_running_job_ids_def listed_job_ids_def)
next
  fix sent' project_id res
  assume "srv sent' (jobs_url cfg project_id ''pending'', token) = Inr res \<and> status_code res \<noteq> 200"
  then show "get_pending_jobs cfg srv project_id token sent'
               = (Inr [], sent' @ [(jobs_url cfg project_id ''pending'', token)])"
    by (simp add: get_pending_jobs_answer)
next
  fix sent' project_id res
  assume "srv sent' (jobs_url cfg project_id ''running'', token) = Inr res \<and> status_code res \<noteq> 200"
  then show "get_running_jobs cfg srv project_id token sent'
               = (Inr [], sent' @ [(jobs_url cfg project_id ''running'', token)])"
    by (simp add: get_running_jobs_answer)
qed

theorem failed_job_listing_counts_zero_witness:
  "get_all_pending_and_running_job_ids example_config
     (table_server (three_projects @ jobs_table partly_failed_fetched))
     example_strptime example_now ''secret'' []
   = Some (Inr ([0, 1, 2, 0, 1, 2, 3, 4], [0, 1]),
           (first_link example_config, ''secret'')
           # map fst (job_requests example_config ''secret'' partly_failed_fetched))
   \<and> get_pending_jobs example_config (table_server (three_projects @ jobs_table partly_failed_fetched))
       2 ''secret'' []
     = (Inr [], [(jobs_url example_config 2 ''pending'', ''secret'')])
   \<and> get_running_jobs example_config (table_server (three_projects @ jobs_table partly_failed_fetched))
       1 ''secret'' []
     = (Inr [], [(jobs_url example_config 1 ''running'', ''secret'')])"
proof -
  have a: "answers (table_server (three_projects @ jobs_table partly_failed_fetched))
             [(first_link example_config, ''secret'')]
             (job_requests example_config ''secret'' partly_failed_fetched)"
    by (simp add: partly_failed_fetched_def jobs_defs example_defs)
  have d: "get_all_project_ids example_config
             (table_server (three_projects @ jobs_table partly_failed_fetched))
             example_strptime example_now ''secret'' []
           = Some (Inr (map fst partly_failed_fetched), [(first_link example_config, ''secret'')])"
    by (simp add: three_projects_discovered) (simp add: partly_failed_fetched_def)
  note t = failed_job_listing_counts_zero [OF d a]
  have p: "get_pending_jobs example_config
             (table_server (three_projects @ jobs_table partly_failed_fetched)) 2 ''secret'' []
           = (Inr [], [] @ [(jobs_url example_config 2 ''pending'', ''secret'')])"
    using t by (elim conjE allE [of _ "[]"] allE [of _ 2] allE [of _ "failed 500 (jobs 4)"])
       (simp add: partly_failed_fetched_def jobs_defs example_defs)
  have r: "get_running_jobs example_config
             (table_server (three_projects @ jobs_table partly_failed_fetched)) 1 ''secret'' []
           = (Inr [], [] @ [(jobs_url example_config 1 ''running'', ''secret'')])"
    using t by (elim conjE allE [of _ "[]"] allE [of _ 1] allE [of _ "failed 500 (jobs 1)"])
       (simp add: partly_failed_fetched_def jobs_defs example_defs)
  have ids: "get_all_pending_and_running_job_ids example_config
               (table_server (three_projects @ jobs_table partly_failed_fetched))
               example_strptime example_now ''secret'' []
             = Some (Inr ([0, 1, 2, 0, 1, 2, 3, 4], [0, 1]),
                     (first_link example_config, ''secret'')
                     # map fst (job_requests example_config ''secret'' partly_failed_fetched))"
    using t by (simp add: partly_failed_fetched_def ok_def failed_def jobs_def upt_rec)
  from ids p r show ?thesis by simp
qed

text \<open>
  Claim C4. Let the API answer the requests of discovery with a run of pages of
  which the last has a status other than 200 (the pages before it have status 200,
  name the next link, and their timestamps parse). Then discovery raises the generic
  exception; so does the aggregation, having sent the page requests and no other
  request; and the handler, once it has read the token, ends with that exception,
  having sent nothing to the autoscaling service and published no metric.
\<close>

theorem project_listing_failure_aborts:
  assumes "pages \<noteq> []"
      and "fst (hd pages) = first_link cfg"
      and "answers srv sent (page_requests token pages)"
      and "pages_chain pages"
      and "\<forall>p \<in> set (projects_of (butlast pages)). strptime (last_activity_at p) \<noteq> None"
      and "status_code (snd (last pages)) \<noteq> 200"
  shows "get_all_project_ids cfg srv strptime now token sent
           = Some (Inl (Exception ''Error retrieving all the projects''),
                   sent @ map fst (page_requests token pages))
       \<and> get_all_pending_and_running_job_ids cfg srv strptime now token sent
           = Some (Inl (Exception ''Error retrieving all the projects''),
                   sent @ map fst (page_requests token pages))
       \<and> (\<forall>ev w result ssm'.
             the_requests_get ev = srv \<and> the_strptime ev = strptime \<and> the_utcnow ev = now
               \<and> http_sent w = sent
               \<and> get_parameter (the_ssm_client ev)
                     \<lparr>Name = TOKEN_SSM_PATH cfg, WithDecryption = True\<rparr> (ssm_sent w)
                   = (Inr result, ssm')
               \<and> Parameter_Value result = token
             \<longrightarrow> handler cfg ev w
                   = Some (Inl (Exception ''Error retrieving all the projects''),
                           w\<lparr>ssm_sent := ssm',
                             http_sent := sent @ map fst (page_requests token pages)\<rparr>))"
proof -
  obtain link res where last: "last pages = (link, res)"
    by (cases "last pages")
  with assms(1) have split: "pages = butlast pages @ [(link, res)]"
    by (metis append_butlast_last_id)
  have requests: "page_requests token pages
                    = page_requests token (butlast pages) @ [((link, token), res)]"
    by (subst split) (simp add: page_requests_def)
  have answered: "srv (sent @ map fst (page_requests token (butlast pages))) (link, token) = Inr res"
    using assms(3) unfolding requests by (simp add: answers_append)
  have "get_all_project_ids cfg srv strptime now token sent
          = project_pages srv strptime (now - timedelta_hours 4) token link
              ([] @ map obj_id (filter (recent strptime now) (projects_of (butlast pages))))
              (sent @ map fst (page_requests token (butlast pages)))"
    unfolding get_all_project_ids_def
    using project_pages_follow [OF assms(1) assms(3) assms(4) assms(5), of now "[]"] assms(2) last
    by simp
  also have "\<dots> = Some (Inl (Exception ''Error retrieving all the projects''),
                         (sent @ map fst (page_requests token (butlast pages))) @ [(link, token)])"
    using answered assms(6) last
    by (intro project_pages_error_page) simp_all
  finally have ids: "get_all_project_ids cfg srv strptime now token sent
           = Some (Inl (Exception ''Error retrieving all the projects''),
                   sent @ map fst (page_requests token pages))"
    by (simp add: requests)
  then have all: "get_all_pending_and_running_job_ids cfg srv strptime now token sent
           = Some (Inl (Exception ''Error retrieving all the projects''),
                   sent @ map fst (page_requests token pages))"
    by (simp add: get_all_pending_and_running_job_ids_def)
  then have count: "get_number_of_pending_and_running_jobs cfg srv strptime now token sent
           = Some (Inl (Exception ''Error retrieving all the projects''),
                   sent @ map fst (page_requests token pages))"
    by (simp add: get_number_of_pending_and_running_jobs_def)
  have "handler cfg ev w
          = Some (Inl (Exception ''Error retrieving all the projects''),
                  w\<lparr>ssm_sent := ssm', http_sent := sent @ map fst (page_requests token pages)\<rparr>)"
    if "the_requests_get ev = srv \<and> the_strptime ev = strptime \<and> the_utcnow ev = now
          \<and> http_sent w = sent
          \<and> get_parameter (the_ssm_client ev)
                \<lparr>Name = TOKEN_SSM_PATH cfg, WithDecryption = True\<rparr> (ssm_sent w)
              = (Inr result, ssm')
          \<and> Parameter_Value result = token"
    for ev w result ssm'
    using that count by (simp add: handler_def)
  with ids all show ?thesis by blast
qed

theorem project_listing_failure_aborts_witness:
  "handler example_config example_env new_world
   = Some (Inl (Exception ''Error retrieving all the projects''),
           \<lparr>ssm_sent = [\<lparr>Name = ''/gitlab/token'', WithDecryption = True\<rparr>],
            http_sent = [(first_link example_config, ''secret''), (''https://g/page2'', ''secret'')],
            asg_sent = [], cw_sent = []\<rparr>)"
proof -
  have token: "get_parameter (the_ssm_client example_env)
                 \<lparr>Name = TOKEN_SSM_PATH example_config, WithDecryption = True\<rparr>
                 (ssm_sent new_world)
               = (Inr \<lparr>Parameter_Value = ''secret''\<rparr>,
                  [\<lparr>Name = ''/gitlab/token'', WithDecryption = True\<rparr>])"
    by (simp add: example_env_def new_world_def get_parameter_def on_exception.simps call_def
          throttled_def example_config_def)
  have h1: "failing_pages \<noteq> []"
    and h2: "fst (hd failing_pages) = first_link example_config"
    and h3: "answers (table_server failing_pages) [] (page_requests ''secret'' failing_pages)"
    and h4: "pages_chain failing_pages"
    and h5: "\<forall>p \<in> set (projects_of (butlast failing_pages)).
               example_strptime (last_activity_at p) \<noteq> None"
    and h6: "status_code (snd (last failing_pages)) \<noteq> 200"
    by (simp_all add: failing_pages_def example_defs)
  have sent: "[] @ map fst (page_requests ''secret'' failing_pages)
                = [(first_link example_config, ''secret''), (''https://g/page2'', ''secret'')]"
    by (simp add: failing_pages_def page_requests_def)
  from project_listing_failure_aborts [OF h1 h2 h3 h4 h5 h6, where now = example_now]
  have "\<forall>ev w result ssm'.
          the_requests_get ev = table_server failing_pages \<and> the_strptime ev = example_strptime
            \<and> the_utcnow ev = example_now \<and> http_sent w = []
            \<and> get_parameter (the_ssm_client ev)
                  \<lparr>Name = TOKEN_SSM_PATH example_config, WithDecryption = True\<rparr> (ssm_sent w)
                = (Inr result, ssm')
            \<and> Parameter_Value result = ''secret''
          \<longrightarrow> handler example_config ev w
                = Some (Inl (Exception ''Error retrieving all the projects''),
                        w\<lparr>ssm_sent := ssm',
                          http_sent := [] @ map fst (page_requests ''secret'' failing_pages)\<rparr>)"
    by blast
  from this [rule_format, of example_env new_world "\<lparr>Parameter_Value = ''secret''\<rparr>"
               "[\<lparr>Name = ''/gitlab/token'', WithDecryption = True\<rparr>]"] token
  have "handler example_config example_env new_world
          = Some (Inl (Exception ''Error retrieving all the projects''),
                  new_world\<lparr>ssm_sent := [\<lparr>Name = ''/gitlab/token'', WithDecryption = True\<rparr>],
                    http_sent := [] @ map fst (page_requests ''secret'' failing_pages)\<rparr>)"
    by (simp add: example_env_def new_world_def)
  then show ?thesis
    unfolding sent by (simp add: new_world_def)
qed

section \<open>The retry policy of the three backend calls\<close>

text \<open>
  Claim C5. For each of \<^verbatim>\<open>get_parameter\<close>, \<^verbatim>\<open>put_metric_data\<close> and
  \<^verbatim>\<open>describe_auto_scaling_groups\<close>: when the call raises a client error with the
  rate-limit code on the attempts 1 to 7 and succeeds on attempt 8, the wrapper
  returns that result, having called 8 times; when the first attempt raises a client
  error with any other code, the wrapper raises it, having called exactly once; and
  in every case the wrapper calls at least once and at most 8 times.
\<close>

theorem sdk_calls_retry_policy:
  fixes svc :: "('q, 'r) service"
  assumes "wrapper = get_parameter \<or> wrapper = put_metric_data
           \<or> wrapper = describe_auto_scaling_groups"
  shows "((\<forall>i<7. \<exists>e. svc (sent @ replicate i q) q = Inl e \<and> rate_limit_error e)
            \<and> svc (sent @ replicate 7 q) q = Inr v
          \<longrightarrow> wrapper svc q sent = (Inr v, sent @ replicate 8 q))
       \<and> (\<forall>e. svc sent q = Inl e \<and> is_ClientError e \<and> \<not> rate_limit_error e
            \<longrightarrow> wrapper svc q sent = (Inl e, sent @ [q]))
       \<and> (\<exists>k. 1 \<le> k \<and> k \<le> 8 \<and> snd (wrapper svc q sent) = sent @ replicate k q)"
proof -
  have w: "wrapper svc q sent
             = on_exception is_ClientError 8 no_request_limit_exceeded_code (call svc q) 0 sent"
    using assms
    by (auto simp: get_parameter_def put_metric_data_def describe_auto_scaling_groups_def
          MAX_RETRIES_def)
  have retried: "wrapper svc q sent = (Inr v, sent @ replicate 8 q)"
    if fails: "\<forall>i<7. \<exists>e. svc (sent @ replicate i q) q = Inl e \<and> rate_limit_error e"
      and ok: "svc (sent @ replicate 7 q) q = Inr v"
  proof -
    have "\<forall>i<7. \<exists>e. svc (sent @ replicate i q) q = Inl e \<and> is_ClientError e
                   \<and> \<not> no_request_limit_exceeded_code e"
    proof (intro allI impI)
      fix i :: nat assume "i < 7"
      with fails obtain e where e: "svc (sent @ replicate i q) q = Inl e" "rate_limit_error e"
        by blast
      from e(2) have "is_ClientError e" by (cases e) simp_all
      with e show "\<exists>e. svc (sent @ replicate i q) q = Inl e \<and> is_ClientError e
                      \<and> \<not> no_request_limit_exceeded_code e"
        by (auto simp: no_request_limit_exceeded_code_iff)
    qed
    then have "on_exception is_ClientError 8 no_request_limit_exceeded_code (call svc q) 0 sent
                 = (Inr v, sent @ replicate (Suc 7) q)"
      using ok by (intro retry_then_success) simp_all
    then show ?thesis
      by (simp add: w)
  qed
  have propagated: "wrapper svc q sent = (Inl e, sent @ [q])"
    if "svc sent q = Inl e" "is_ClientError e" "\<not> rate_limit_error e" for e
    using that unfolding w
    by (intro on_exception_gives_up) (simp_all add: call_def no_request_limit_exceeded_code_iff)
  have bounded: "\<exists>k. 1 \<le> k \<and> k \<le> 8 \<and> snd (wrapper svc q sent) = sent @ replicate k q"
    using on_exception_bounded [of 8 0 is_ClientError no_request_limit_exceeded_code svc q sent]
    unfolding w by auto
  from retried propagated bounded show ?thesis by blast
qed

theorem sdk_calls_retry_policy_witness:
  "get_parameter (throttled 7 ''token'') ''path'' [] = (Inr ''token'', replicate 8 ''path'')
   \<and> put_metric_data (failing (ClientError (error_response ''AccessDenied''))) ''data'' []
       = (Inl (ClientError (error_response ''AccessDenied'')) :: exc + unit, [''data''])
   \<and> (\<exists>k. 1 \<le> k \<and> k \<le> 8
         \<and> snd (describe_auto_scaling_groups (throttled 20 ''groups'') ''name'' [])
             = replicate k ''name'')"
proof -
  have a: "get_parameter (throttled 7 ''token'') ''path'' [] = (Inr ''token'', replicate 8 ''path'')"
    using sdk_calls_retry_policy [of get_parameter "throttled 7 ''token''" "[]" "''path''" "''token''"]
    by (simp add: throttled_def error_response_def)
  have b: "put_metric_data (failing (ClientError (error_response ''AccessDenied''))) ''data'' []
       = (Inl (ClientError (error_response ''AccessDenied'')) :: exc + unit, [''data''])"
    using sdk_calls_retry_policy [of put_metric_data
            "failing (ClientError (error_response ''AccessDenied'')) :: (string, unit) service"
            "[]" "''data''"]
    by (simp add: failing_def error_response_def)
  have c: "\<exists>k. 1 \<le> k \<and> k \<le> 8
         \<and> snd (describe_auto_scaling_groups (throttled 20 ''groups'') ''name'' [])
             = replicate k ''name''"
    using sdk_calls_retry_policy [of describe_auto_scaling_groups "throttled 20 ''groups''" "[]"
            "''name''"]
    by simp
  from a b c show ?thesis by blast
qed

section \<open>Healthy instances in service\<close>

text \<open>
  Claim C6. When the autoscaling service describes the group, the count returned is
  the number of the instances of its first group whose health status is
  \<^verbatim>\<open>Healthy\<close> and whose lifecycle state is \<^verbatim>\<open>InService\<close>, both at once: an instance
  with only one of the two is not counted.
\<close>

theorem healthy_in_service_count:
  assumes "describe_auto_scaling_groups asg_svc [ASG_NAME cfg] sent = (Inr result, sent')"
      and "AutoScalingGroups result = asg # others"
      and "Instances asg = Some instances"
  shows "get_asg_healthy_instances_in_service cfg asg_svc sent
           = (Inr (length (filter (\<lambda>i. HealthStatus i = ''Healthy''
                                        \<and> LifecycleState i = ''InService'') instances)),
              sent')"
  using assms
  by (simp add: get_asg_healthy_instances_in_service_def getitem_def count_in_service_filter)

theorem healthy_in_service_count_witness:
  "get_asg_healthy_instances_in_service example_config
     (throttled 0 \<lparr>AutoScalingGroups = [\<lparr>Instances = Some example_instances\<rparr>]\<rparr>) []
   = (Inr 1, [''runners''] # [])"
proof -
  have d: "describe_auto_scaling_groups
             (throttled 0 \<lparr>AutoScalingGroups = [\<lparr>Instances = Some example_instances\<rparr>]\<rparr>)
             [ASG_NAME example_config] []
           = (Inr \<lparr>AutoScalingGroups = [\<lparr>Instances = Some example_instances\<rparr>]\<rparr>, [''runners''] # [])"
    by (simp add: describe_auto_scaling_groups_def on_exception.simps call_def throttled_def
          example_config_def)
  show ?thesis
    using healthy_in_service_count [OF d, of "\<lparr>Instances = Some example_instances\<rparr>" "[]"
            example_instances]
    by (simp add: example_instances_def)
qed

section \<open>Counts\<close>

text \<open>
  Claim C7. Let discovery return the projects of \<open>fetched\<close>, and let the API answer
  the pending and the running job listing of each of them with status 200 and a list
  of jobs. Then the pending count is the sum of the lengths of the pending lists and
  the running count the sum of the lengths of the running lists. The instance below
  has three projects with pending lists of 3, 0 and 5 jobs and running lists of 1, 2
  and 0 jobs, and counts 8 and 3.
\<close>

theorem job_counts_are_sums:
  assumes "get_all_project_ids cfg srv strptime now token sent = Some (Inr (map fst fetched), sent1)"
      and "answers srv sent1 (job_requests cfg token fetched)"
      and "\<forall>(project_id, pending, running) \<in> set fetched.
             status_code pending = 200 \<and> status_code running = 200"
  shows "get_number_of_pending_and_running_jobs cfg srv strptime now token sent
           = Some (Inr (sum_list (map (\<lambda>(project_id, pending, running). length (json pending))
                                   fetched),
                        sum_list (map (\<lambda>(project_id, pending, running). length (json running))
                                   fetched)),
                   sent1 @ map fst (job_requests cfg token fetched))"
proof -
  have pending: "map (\<lambda>x. length (case x of (project_id, pending, running) \<Rightarrow> listed_job_ids pending))
                   fetched
                 = map (\<lambda>(project_id, pending, running). length (json pending)) fetched"
    using assms(3) by (intro map_cong refl) (auto simp: listed_job_ids_def)
  have running: "map (\<lambda>x. length (case x of (project_id, pending, running) \<Rightarrow> listed_job_ids running))
                   fetched
                 = map (\<lambda>(project_id, pending, running). length (json running)) fetched"
    using assms(3) by (intro map_cong refl) (auto simp: listed_job_ids_def)
  show ?thesis
    using assms(1) job_ids_loop_answers [OF assms(2), of "[]" "[]"]
    by (simp add: get_number_of_pending_and_running_jobs_def
          get_all_pending_and_running_job_ids_def length_concat comp_def pending running)
qed

theorem job_counts_are_sums_witness:
  "get_number_of_pending_and_running_jobs example_config
     (table_server (three_projects @ jobs_table example_fetched))
     example_strptime example_now ''secret'' []
   = Some (Inr (8, 3),
           (first_link example_config, ''secret'')
           # map fst (job_requests example_config ''secret'' example_fetched))"
proof -
  have a: "answers (table_server (three_projects @ jobs_table example_fetched))
             [(first_link example_config, ''secret'')]
             (job_requests example_config ''secret'' example_fetched)"
    by (simp add: example_fetched_def jobs_defs example_defs)
  have d: "get_all_project_ids example_config
             (table_server (three_projects @ jobs_table example_fetched))
             example_strptime example_now ''secret'' []
           = Some (Inr (map fst example_fetched), [(first_link example_config, ''secret'')])"
    by (simp add: three_projects_discovered) (simp add: example_fetched_def)
  have s: "\<forall>(project_id, pending, running) \<in> set example_fetched.
             status_code pending = 200 \<and> status_code running = 200"
    by (simp add: example_fetched_def ok_def)
  show ?thesis
    using job_counts_are_sums [OF d a s]
    by (simp add: example_fetched_def ok_def jobs_def)
qed

section \<open>The pagination cursor\<close>

text \<open>
  Claim C8. When a page of projects has status 200 and the \<^verbatim>\<open>Links\<close> header
  \<^verbatim>\<open><https://x/page2>; rel="next"\<close>, the cursor read from the header is
  \<^verbatim>\<open>https://x/page2\<close> exactly, discovery goes on with that link, and the request
  after the one of this page is sent to it.
\<close>

theorem next_page_link:
  assumes \<open>srv sent (link, token) = Inr res\<close>
      and \<open>status_code res = 200\<close>
      and \<open>headers res ''Links'' = Some ''<https://x/page2>; rel="next"''\<close>
      and \<open>scan_projects strptime cutoff (json res) ids = Inr ids'\<close>
  shows \<open>next_link ''<https://x/page2>; rel="next"'' = Inr ''https://x/page2''
       \<and> project_pages srv strptime cutoff token link ids sent
           = project_pages srv strptime cutoff token ''https://x/page2'' ids'
               (sent @ [(link, token)])
       \<and> (\<forall>out sent'. project_pages srv strptime cutoff token link ids sent = Some (out, sent')
             \<longrightarrow> (\<exists>rest. sent' = sent @ (link, token) # (''https://x/page2'', token) # rest))\<close>
proof -
  have cursor: \<open>next_link ''<https://x/page2>; rel="next"'' = Inr ''https://x/page2''\<close>
    by (simp add: next_link_def getitem_def)
  have step: "project_pages srv strptime cutoff token link ids sent
           = project_pages srv strptime cutoff token ''https://x/page2'' ids'
               (sent @ [(link, token)])"
    using assms cursor by (intro project_pages_next_page) simp_all
  have "\<exists>rest. sent' = sent @ (link, token) # (''https://x/page2'', token) # rest"
    if "project_pages srv strptime cutoff token link ids sent = Some (out, sent')" for out sent'
    using that project_pages_sent [of srv strptime cutoff token "''https://x/page2''" ids'
                                     "sent @ [(link, token)]" out sent']
    unfolding step by simp
  with cursor step show ?thesis by blast
qed

theorem next_page_link_witness:
  "get_all_project_ids example_config (table_server x_pages) example_strptime example_now
     ''secret'' []
   = Some (Inr [1], [(first_link example_config, ''secret''), (''https://x/page2'', ''secret'')])"
proof -
  have first: "project_pages (table_server x_pages) example_strptime
                 (example_now - timedelta_hours 4) ''secret'' (first_link example_config) [] []
               = project_pages (table_server x_pages) example_strptime
                   (example_now - timedelta_hours 4) ''secret'' ''https://x/page2'' [1]
                   ([] @ [(first_link example_config, ''secret'')])"
    using next_page_link [of "table_server x_pages" "[]" "first_link example_config" "''secret''"
            "snd (hd x_pages)" example_strptime "example_now - timedelta_hours 4" "[]" "[1]"]
    by (simp add: x_pages_def timedelta_hours_def example_defs)
  have second: "project_pages (table_server x_pages) example_strptime
                  (example_now - timedelta_hours 4) ''secret'' ''https://x/page2'' [1]
                  ([] @ [(first_link example_config, ''secret'')])
                = Some (Inr ([1] @ map obj_id (filter (recent example_strptime example_now)
                                                (json (ok [])))),
                        ([] @ [(first_link example_config, ''secret'')])
                          @ [(''https://x/page2'', ''secret'')])"
    by (rule project_pages_last_page)
       (simp_all add: x_pages_def example_defs)
  show ?thesis
    unfolding get_all_project_ids_def first second by (simp add: ok_def)
qed

text \<open>
  Claim C9, as amended. When a page of projects has status 200 and no \<^verbatim>\<open>Links\<close>
  header, and the timestamps of its projects parse, discovery ends there without
  raising and returns the ids accumulated so far followed by the recent ids of this
  page; when the project list of the page is empty these are the ids accumulated so
  far, possibly none.
\<close>

theorem page_without_cursor_ends_discovery:
  assumes "srv sent (link, token) = Inr res"
      and "status_code res = 200"
      and "headers res ''Links'' = None"
      and "\<forall>p \<in> set (json res). strptime (last_activity_at p) \<noteq> None"
  shows "project_pages srv strptime (now - timedelta_hours 4) token link ids sent
           = Some (Inr (ids @ map obj_id (filter (recent strptime now) (json res))),
                   sent @ [(link, token)])
       \<and> (json res = [] \<longrightarrow>
            project_pages srv strptime (now - timedelta_hours 4) token link ids sent
              = Some (Inr ids, sent @ [(link, token)]))"
proof -
  have "project_pages srv strptime (now - timedelta_hours 4) token link ids sent
           = Some (Inr (ids @ map obj_id (filter (recent strptime now) (json res))),
                   sent @ [(link, token)])"
    using assms by (rule project_pages_last_page)
  then show ?thesis by simp
qed

theorem page_without_cursor_ends_discovery_witness:
  "project_pages (table_server [(''https://g/last'', ok [])]) example_strptime
     (example_now - timedelta_hours 4) ''secret'' ''https://g/last'' [7, 9] []
   = Some (Inr [7, 9], [(''https://g/last'', ''secret'')])
   \<and> project_pages (table_server three_projects) example_strptime
       (example_now - timedelta_hours 4) ''secret'' (first_link example_config) [7, 9] []
     = Some (Inr [7, 9, 1, 2, 3], [(first_link example_config, ''secret'')])"
  using page_without_cursor_ends_discovery [of "table_server [(''https://g/last'', ok [])]" "[]"
          "''https://g/last''" "''secret''" "ok []" example_strptime example_now "[7, 9]"]
        page_without_cursor_ends_discovery [of "table_server three_projects" "[]"
          "first_link example_config" "''secret''" "snd (hd three_projects)" example_strptime
          example_now "[7, 9]"]
  by (simp add: three_projects_def example_defs)

text \<open>
  Claim C9 as stated fails on both of its cases. A \<^verbatim>\<open>Links\<close> header with an empty
  value makes \<^verbatim>\<open>''.split('<')[1]\<close> raise \<^verbatim>\<open>IndexError\<close>. An empty project list does not
  end discovery: when the page carries a cursor the next page is requested, and here
  that page has status 500, so discovery raises.
\<close>

theorem cursor_edge_cases_raise:
  "get_all_project_ids example_config (table_server empty_cursor_pages) example_strptime
     example_now ''secret'' []
   = Some (Inl IndexError, [(first_link example_config, ''secret'')])
   \<and> get_all_project_ids example_config (table_server empty_list_pages) example_strptime
       example_now ''secret'' []
     = Some (Inl (Exception ''Error retrieving all the projects''),
             [(first_link example_config, ''secret''), (''https://g/page2'', ''secret'')])"
proof -
  have a: "project_pages (table_server empty_cursor_pages) example_strptime
             (example_now - timedelta_hours 4) ''secret'' (first_link example_config) [] []
           = Some (Inl IndexError, [] @ [(first_link example_config, ''secret'')])"
    by (rule project_pages_bad_cursor [where res = "snd (hd empty_cursor_pages)"
                                        and links = "[]" and ids' = "[]"])
       (simp_all add: empty_cursor_pages_def example_defs)
  have b1: "project_pages (table_server empty_list_pages) example_strptime
              (example_now - timedelta_hours 4) ''secret'' (first_link example_config) [] []
            = project_pages (table_server empty_list_pages) example_strptime
                (example_now - timedelta_hours 4) ''secret'' ''https://g/page2'' []
                ([] @ [(first_link example_config, ''secret'')])"
    by (rule project_pages_next_page [where res = "snd (hd empty_list_pages)"
                                       and links = "''<https://g/page2>''"])
       (simp_all add: empty_list_pages_def example_defs)
  have b2: "project_pages (table_server empty_list_pages) example_strptime
              (example_now - timedelta_hours 4) ''secret'' ''https://g/page2'' []
              ([] @ [(first_link example_config, ''secret'')])
            = Some (Inl (Exception ''Error retrieving all the projects''),
                    ([] @ [(first_link example_config, ''secret'')])
                      @ [(''https://g/page2'', ''secret'')])"
    by (rule project_pages_error_page [where res = "failed 500 []"])
       (simp_all add: empty_list_pages_def example_defs)
  show ?thesis
    unfolding get_all_project_ids_def a b1 b2 by simp
qed

section \<open>Client errors without an error code\<close>

text \<open>
  Claim C10. When one of the three backend calls raises a client error whose response
  has no error code at all (it has no \<^verbatim>\<open>Error\<close> field, or its \<^verbatim>\<open>Error\<close> field has no
  \<^verbatim>\<open>Code\<close>), the give-up predicate reads the code \<^verbatim>\<open>Unknown\<close>, which is not the
  rate-limit code, and holds; the wrapper raises the error after exactly one call.
\<close>

theorem sdk_error_without_code:
  fixes svc :: "('q, 'r) service"
  assumes "wrapper = get_parameter \<or> wrapper = put_metric_data
           \<or> wrapper = describe_auto_scaling_groups"
      and "svc sent q = Inl (ClientError response)"
      and "error_code response = None"
  shows "dict_get (dict_get response ''Error'' Map.empty) ''Code'' ''Unknown'' = ''Unknown''
       \<and> no_request_limit_exceeded_code (ClientError response)
       \<and> wrapper svc q sent = (Inl (ClientError response), sent @ [q])"
proof -
  have code: "dict_get (dict_get response ''Error'' Map.empty) ''Code'' ''Unknown'' = ''Unknown''"
    using assms(3) by (simp add: dict_get_def error_code_def split: option.splits)
  then have giveup: "no_request_limit_exceeded_code (ClientError response)"
    by simp
  have "on_exception is_ClientError MAX_RETRIES no_request_limit_exceeded_code (call svc q) 0 sent
          = (Inl (ClientError response), sent @ [q])"
    using assms(2) giveup by (intro on_exception_gives_up) (simp_all add: call_def)
  then have "wrapper svc q sent = (Inl (ClientError response), sent @ [q])"
    using assms(1)
    by (auto simp: get_parameter_def put_metric_data_def describe_auto_scaling_groups_def)
  with code giveup show ?thesis by blast
qed

theorem sdk_error_without_code_witness:
  "get_parameter (failing (ClientError Map.empty)) ''path'' []
     = (Inl (ClientError Map.empty) :: exc + string, [''path''])
   \<and> put_metric_data (failing (ClientError [''Error'' \<mapsto> Map.empty])) ''data'' []
     = (Inl (ClientError [''Error'' \<mapsto> Map.empty]) :: exc + unit, [''data''])
   \<and> describe_auto_scaling_groups
         (failing (ClientError [''Error'' \<mapsto> [''Message'' \<mapsto> ''denied'']])) ''name'' []
     = (Inl (ClientError [''Error'' \<mapsto> [''Message'' \<mapsto> ''denied'']]) :: exc + string,
        [''name''])
   \<and> no_request_limit_exceeded_code (ClientError [''Error'' \<mapsto> Map.empty])"
proof -
  have a: "get_parameter (failing (ClientError Map.empty)) ''path'' []
     = (Inl (ClientError Map.empty) :: exc + string, [''path''])"
    using sdk_error_without_code [of get_parameter
            "failing (ClientError Map.empty) :: (string, string) service" "[]" "''path''" Map.empty]
    by (simp add: failing_def error_code_def)
  have b: "put_metric_data (failing (ClientError [''Error'' \<mapsto> Map.empty])) ''data'' []
     = (Inl (ClientError [''Error'' \<mapsto> Map.empty]) :: exc + unit, [''data''])
     \<and> no_request_limit_exceeded_code (ClientError [''Error'' \<mapsto> Map.empty])"
    using sdk_error_without_code [of put_metric_data
            "failing (ClientError [''Error'' \<mapsto> Map.empty]) :: (string, unit) service" "[]"
            "''data''" "[''Error'' \<mapsto> Map.empty]"]
    by (simp add: failing_def error_code_def)
  have c: "describe_auto_scaling_groups
         (failing (ClientError [''Error'' \<mapsto> [''Message'' \<mapsto> ''denied'']])) ''name'' []
     = (Inl (ClientError [''Error'' \<mapsto> [''Message'' \<mapsto> ''denied'']]) :: exc + string,
        [''name''])"
    using sdk_error_without_code [of describe_auto_scaling_groups
            "failing (ClientError [''Error'' \<mapsto> [''Message'' \<mapsto> ''denied'']])
               :: (string, string) service" "[]"
            "''name''" "[''Error'' \<mapsto> [''Message'' \<mapsto> ''denied'']]"]
    by (simp add: failing_def error_code_def)
  from a b c show ?thesis by blast
qed

end
